theory Spec2Isabelle
  imports Main "HOL-Library.Sublist"
begin

section \<open>Python values\<close>

text \<open>
  A Python \<^verbatim>\<open>str\<close> is a sequence of Unicode code points: slicing and \<^verbatim>\<open>len\<close> count code
  points, and the regular expressions of the source classify code points. A string is
  therefore a list of code points (natural numbers); \<open>U\<close> embeds an ASCII literal.
\<close>

type_synonym ustring = "nat list"

definition U :: "string \<Rightarrow> ustring" where
  "U s = map of_char s"

text \<open>
  The values that the extractor handles are the values \<^verbatim>\<open>json.loads\<close> builds: \<^verbatim>\<open>None\<close>,
  booleans, integers, strings, lists and dictionaries with string keys. A dictionary is an
  association list in insertion order; the first binding of a key is the live one.
  Floating-point numbers are outside the modelled fragment.
\<close>

datatype pyval =
    PNone
  | PBool bool
  | PInt int
  | PStr ustring
  | PList "pyval list"
  | PDict "(ustring \<times> pyval) list"

type_synonym pydict = "(ustring \<times> pyval) list"

text \<open>The exceptions that the modelled code can meet.\<close>

datatype py_exc =
    TypeError
  | AttributeError
  | KeyError
  | ValueError
  | OSError
  | RuntimeError
  | RecursionError
  | JSONDecodeError

text \<open>Truth value testing, as \<^verbatim>\<open>if x:\<close> and \<^verbatim>\<open>x and y\<close> do it.\<close>

fun truthy :: "pyval \<Rightarrow> bool" where
  "truthy PNone = False"
| "truthy (PBool b) = b"
| "truthy (PInt n) = (n \<noteq> 0)"
| "truthy (PStr s) = (s \<noteq> [])"
| "truthy (PList xs) = (xs \<noteq> [])"
| "truthy (PDict kvs) = (kvs \<noteq> [])"

text \<open>\<^verbatim>\<open>d.get(k, default)\<close> and \<^verbatim>\<open>d[k] = v\<close> on a dictionary.\<close>

definition dict_get :: "pydict \<Rightarrow> ustring \<Rightarrow> pyval \<Rightarrow> pyval" where
  "dict_get d k dflt = (case map_of d k of None \<Rightarrow> dflt | Some v \<Rightarrow> v)"

fun dict_set :: "pydict \<Rightarrow> ustring \<Rightarrow> pyval \<Rightarrow> pydict" where
  "dict_set [] k v = [(k, v)]"
| "dict_set ((k', v') # ps) k v =
     (if k' = k then (k, v) # ps else (k', v') # dict_set ps k v)"

text \<open>
  \<^verbatim>\<open>x.get(k, default)\<close> on an arbitrary value: only a dictionary has the method, every
  other value raises \<^verbatim>\<open>AttributeError\<close>.
\<close>

fun py_get :: "pyval \<Rightarrow> ustring \<Rightarrow> pyval \<Rightarrow> py_exc + pyval" where
  "py_get (PDict d) k dflt = Inr (dict_get d k dflt)"
| "py_get _ k dflt = Inl AttributeError"

text \<open>
  \<^verbatim>\<open>for x in v\<close>: a list yields its elements, a dictionary its keys, a string its
  one-character substrings; \<^verbatim>\<open>None\<close>, booleans and integers are not iterable.
\<close>

fun py_iter :: "pyval \<Rightarrow> py_exc + pyval list" where
  "py_iter (PList xs) = Inr xs"
| "py_iter (PDict kvs) = Inr (map PStr (remdups (map fst kvs)))"
| "py_iter (PStr s) = Inr (map (\<lambda>c. PStr [c]) s)"
| "py_iter _ = Inl TypeError"

text \<open>
  Membership in a \<^verbatim>\<open>set\<close> goes through \<^verbatim>\<open>hash\<close> and \<^verbatim>\<open>==\<close>. Lists and dictionaries are
  unhashable (\<^verbatim>\<open>TypeError\<close>); \<^verbatim>\<open>True\<close> and \<^verbatim>\<open>False\<close> are equal to \<^verbatim>\<open>1\<close> and \<^verbatim>\<open>0\<close> and hash
  alike. \<open>hash_key\<close> maps a value to the representative under which a set stores it.
\<close>

fun hash_key :: "pyval \<Rightarrow> py_exc + pyval" where
  "hash_key (PBool b) = Inr (PInt (if b then 1 else 0))"
| "hash_key (PList xs) = Inl TypeError"
| "hash_key (PDict kvs) = Inl TypeError"
| "hash_key v = Inr v"

section \<open>Deduplication: \<^verbatim>\<open>remove_duplicates\<close> (src/utils/file_utils.py)\<close>

text \<open>
  The source runs the same loop twice, once over \<^verbatim>\<open>data.get("chats", [])\<close> and once over
  \<^verbatim>\<open>data.get("composers", [])\<close>:
  \<^verbatim>\<open>
    unique = []; seen = set()
    for rec in recs:
        rec_id = rec.get("id")
        if rec_id and rec_id not in seen:
            unique.append(rec); seen.add(rec_id)
  \<close>
  \<open>unique_by_id recs seen unique\<close> is that loop from the state \<open>(seen, unique)\<close>.
\<close>

fun unique_by_id :: "pyval list \<Rightarrow> pyval set \<Rightarrow> pyval list \<Rightarrow> py_exc + pyval list" where
  "unique_by_id [] seen unique = Inr unique"
| "unique_by_id (r # rs) seen unique =
     (case py_get r (U ''id'') PNone of
        Inl e \<Rightarrow> Inl e
      | Inr rid \<Rightarrow>
          if \<not> truthy rid then unique_by_id rs seen unique
          else (case hash_key rid of
                  Inl e \<Rightarrow> Inl e
                | Inr k \<Rightarrow>
                    if k \<in> seen then unique_by_id rs seen unique
                    else unique_by_id rs (insert k seen) (unique @ [r])))"

text \<open>
  \<^verbatim>\<open>remove_duplicates\<close> updates \<^verbatim>\<open>data\<close> in place and returns it. The model returns the final
  state of the dictionary together with the exception that left the function, if any:
  an exception in the second loop leaves the first assignment in place.
\<close>

definition remove_duplicates :: "pydict \<Rightarrow> pydict \<times> py_exc option" where
  "remove_duplicates data =
     (case py_iter (dict_get data (U ''chats'') (PList [])) of
        Inl e \<Rightarrow> (data, Some e)
      | Inr chats \<Rightarrow>
     (case unique_by_id chats {} [] of
        Inl e \<Rightarrow> (data, Some e)
      | Inr unique_chats \<Rightarrow>
     (let data1 = dict_set data (U ''chats'') (PList unique_chats) in
     (case py_iter (dict_get data1 (U ''composers'') (PList [])) of
        Inl e \<Rightarrow> (data1, Some e)
      | Inr composers \<Rightarrow>
     (case unique_by_id composers {} [] of
        Inl e \<Rightarrow> (data1, Some e)
      | Inr unique_composers \<Rightarrow>
          (dict_set data1 (U ''composers'') (PList unique_composers), None))))))"

text \<open>
  The key under which the loop stores a record in \<^verbatim>\<open>seen\<close>: the representative of the
  record's \<^verbatim>\<open>"id"\<close> when the record is a dictionary whose id is truthy and hashable,
  \<open>None\<close> when the record has no usable id.
\<close>

definition id_key :: "pyval \<Rightarrow> pyval option" where
  "id_key r =
     (case py_get r (U ''id'') PNone of
        Inl e \<Rightarrow> None
      | Inr rid \<Rightarrow>
          if truthy rid then (case hash_key rid of Inl e \<Rightarrow> None | Inr k \<Rightarrow> Some k)
          else None)"

text \<open>
  What the specification asks of the deduplicated collection, in its own words: unique
  ids, first-seen order. \<open>first_occurrences rs\<close> keeps, in input order, the record at each
  position whose id is usable and does not occur at an earlier position.
\<close>

definition first_occurrences :: "pyval list \<Rightarrow> pyval list" where
  "first_occurrences rs =
     map ((!) rs)
       (filter (\<lambda>i. id_key (rs ! i) \<noteq> None \<and> id_key (rs ! i) \<notin> set (map id_key (take i rs)))
          [0..<length rs])"

text \<open>The loop without its error branches; used to reason about \<open>unique_by_id\<close>.\<close>

fun first_seen :: "pyval list \<Rightarrow> pyval set \<Rightarrow> pyval list" where
  "first_seen [] seen = []"
| "first_seen (r # rs) seen =
     (case id_key r of
        None \<Rightarrow> first_seen rs seen
      | Some k \<Rightarrow> if k \<in> seen then first_seen rs seen else r # first_seen rs (insert k seen))"

text \<open>Sample extraction results.\<close>

definition sample_data :: pydict where
  "sample_data =
     [(U ''workspace_id'', PStr (U ''ws1'')),
      (U ''workspace_path'', PStr (U ''/home/u/proj'')),
      (U ''chats'',
         PList [PDict [(U ''id'', PStr (U ''a'')), (U ''title'', PStr (U ''first''))],
                PDict [(U ''id'', PStr []), (U ''title'', PStr (U ''no id''))],
                PDict [(U ''id'', PStr (U ''b''))],
                PDict [(U ''id'', PStr (U ''a'')), (U ''title'', PStr (U ''again''))],
                PDict [(U ''title'', PStr (U ''absent id''))]]),
      (U ''composers'',
         PList [PDict [(U ''id'', PStr (U ''c1''))],
                PDict [(U ''id'', PNone)],
                PDict [(U ''id'', PStr (U ''c1''))]])]"

definition sample_deduplicated :: pydict where
  "sample_deduplicated =
     [(U ''workspace_id'', PStr (U ''ws1'')),
      (U ''workspace_path'', PStr (U ''/home/u/proj'')),
      (U ''chats'',
         PList [PDict [(U ''id'', PStr (U ''a'')), (U ''title'', PStr (U ''first''))],
                PDict [(U ''id'', PStr (U ''b''))]]),
      (U ''composers'', PList [PDict [(U ''id'', PStr (U ''c1''))]])]"

section \<open>Tolerant JSON parsing: \<^verbatim>\<open>safe_parse_json\<close> (src/utils/json_utils.py)\<close>

subsection \<open>The regular-expression substitution\<close>

text \<open>
  \<^verbatim>\<open>\s\<close> in a \<^verbatim>\<open>str\<close> pattern matches the code points for which \<^verbatim>\<open>str.isspace\<close> holds.
\<close>

definition is_space :: "nat \<Rightarrow> bool" where
  "is_space c \<longleftrightarrow>
     (9 \<le> c \<and> c \<le> 13) \<or> (28 \<le> c \<and> c \<le> 32) \<or> c = 133 \<or> c = 160 \<or> c = 5760 \<or>
     (8192 \<le> c \<and> c \<le> 8202) \<or> c = 8232 \<or> c = 8233 \<or> c = 8239 \<or> c = 8287 \<or> c = 12288"

text \<open>Code points of the punctuation the source names.\<close>

definition comma :: nat where "comma = 44"
definition lbrace :: nat where "lbrace = 123"
definition rbrace :: nat where "rbrace = 125"
definition lbracket :: nat where "lbracket = 91"
definition rbracket :: nat where "rbracket = 93"

text \<open>
  \<^verbatim>\<open>re.sub(r',\s*([}\]])', r'\1', json_str)\<close>: scanning from the left, a comma that is
  followed by a (maximal) run of whitespace and then \<^verbatim>\<open>}\<close> or \<^verbatim>\<open>]\<close> is replaced, together
  with the whitespace, by that bracket, and the scan goes on behind the bracket; every
  other character is copied. The substitution does not know about string literals.
\<close>

function strip_trailing_commas :: "ustring \<Rightarrow> ustring" where
  "strip_trailing_commas [] = []"
| "strip_trailing_commas (c # cs) =
     (if c = comma then
        (case dropWhile is_space cs of
           [] \<Rightarrow> c # strip_trailing_commas cs
         | b # rest \<Rightarrow>
             if b = rbrace \<or> b = rbracket then b # strip_trailing_commas rest
             else c # strip_trailing_commas cs)
      else c # strip_trailing_commas cs)"
  by pat_completeness auto
termination
proof (relation "measure length")
  fix c :: nat and cs b rest
  assume "dropWhile is_space cs = b # rest"
  then have "length (b # rest) \<le> length cs"
    by (metis length_dropWhile_le)
  then show "(rest, c # cs) \<in> measure length" by simp
qed auto

text \<open>Whether a comma in front of \<open>cs\<close> is matched by the pattern: the first character of
  \<open>cs\<close> behind its leading whitespace is a closing bracket.\<close>

definition comma_match :: "ustring \<Rightarrow> bool" where
  "comma_match cs \<longleftrightarrow>
     (case dropWhile is_space cs of [] \<Rightarrow> False | b # rest \<Rightarrow> b = rbrace \<or> b = rbracket)"

subsection \<open>The function\<close>

text \<open>
  The strict parser \<^verbatim>\<open>json.loads\<close> is a parameter \<open>loads\<close>: it returns a value or raises.
  The result of \<^verbatim>\<open>safe_parse_json\<close> is the pair \<^verbatim>\<open>(value, error)\<close>; \<open>None\<close> in either place
  is Python's \<^verbatim>\<open>None\<close>, and the two error texts are the constructors of \<open>parse_msg\<close>. Only
  \<^verbatim>\<open>json.JSONDecodeError\<close> is caught at the first attempt, every exception at the second
  and third.
\<close>

datatype parse_msg = EmptyData | ParseError

definition force_braces :: "ustring \<Rightarrow> ustring" where
  "force_braces cleaned_str =
     (let c1 = (if take 1 cleaned_str \<noteq> [lbrace] then lbrace # cleaned_str else cleaned_str);
          c2 = (if c1 = [] \<or> last c1 \<noteq> rbrace then c1 @ [rbrace] else c1)
      in c2)"

definition safe_parse_json ::
    "(ustring \<Rightarrow> py_exc + 'v) \<Rightarrow> ustring \<Rightarrow> py_exc + ('v option \<times> parse_msg option)" where
  "safe_parse_json loads json_str =
     (if json_str = [] then Inr (None, Some EmptyData)
      else
        (case loads json_str of
           Inr v \<Rightarrow> Inr (Some v, None)
         | Inl e \<Rightarrow>
             if e \<noteq> JSONDecodeError then Inl e
             else
               (let cleaned_str = strip_trailing_commas json_str in
                (case loads cleaned_str of
                   Inr v \<Rightarrow> Inr (Some v, None)
                 | Inl e2 \<Rightarrow>
                     (case loads (force_braces cleaned_str) of
                        Inr v \<Rightarrow> Inr (Some v, None)
                      | Inl e3 \<Rightarrow> Inr (None, Some ParseError))))))"

subsection \<open>A strict parser\<close>

text \<open>
  A model of the strict parser of the Python standard library, \<^verbatim>\<open>json.loads\<close> on a \<^verbatim>\<open>str\<close>,
  after its documentation and grammar: whitespace is space, tab, line feed and carriage
  return; strings reject raw control characters and decode the escapes, joining
  surrogate pairs; the literals include \<^verbatim>\<open>NaN\<close>, \<^verbatim>\<open>Infinity\<close> and \<^verbatim>\<open>-Infinity\<close>; a repeated key
  keeps its first position and its last value; anything after the value but whitespace
  is an error. Every syntax error is a \<^verbatim>\<open>JSONDecodeError\<close>. An integer literal is its
  value; a literal with a fraction or an exponent is kept as its text (Python rounds it to
  a double). The interpreter's limits on nesting depth and on the digits of an integer
  are not modelled.
\<close>

datatype json =
    JNull
  | JBool bool
  | JInt int
  | JFloat ustring
  | JStr ustring
  | JArr "json list"
  | JObj "(ustring \<times> json) list"

datatype token = TLBrace | TRBrace | TLBracket | TRBracket | TComma | TColon | TVal json

definition hex_val :: "nat \<Rightarrow> nat option" where
  "hex_val c =
     (if 48 \<le> c \<and> c \<le> 57 then Some (c - 48)
      else if 97 \<le> c \<and> c \<le> 102 then Some (c - 87)
      else if 65 \<le> c \<and> c \<le> 70 then Some (c - 55)
      else None)"

fun hex4 :: "ustring \<Rightarrow> nat option" where
  "hex4 [a, b, c, d] =
     (case (hex_val a, hex_val b, hex_val c, hex_val d) of
        (Some w, Some x, Some y, Some z) \<Rightarrow> Some (((w * 16 + x) * 16 + y) * 16 + z)
      | _ \<Rightarrow> None)"
| "hex4 _ = None"

definition unescape :: "nat \<Rightarrow> nat option" where
  "unescape e =
     (if e = 34 \<or> e = 92 \<or> e = 47 then Some e
      else if e = 98 then Some 8
      else if e = 102 then Some 12
      else if e = 110 then Some 10
      else if e = 114 then Some 13
      else if e = 116 then Some 9
      else None)"

definition low_surrogate_at :: "ustring \<Rightarrow> nat option" where
  "low_surrogate_at s =
     (if take 2 s = [92, 117] then
        (case hex4 (take 4 (drop 2 s)) of
           Some u2 \<Rightarrow> if 56320 \<le> u2 \<and> u2 \<le> 57343 then Some u2 else None
         | None \<Rightarrow> None)
      else None)"

definition cons_chr :: "nat \<Rightarrow> (ustring \<times> ustring) option \<Rightarrow> (ustring \<times> ustring) option" where
  "cons_chr c r = map_option (\<lambda>(s, rest). (c # s, rest)) r"

text \<open>\<open>scan_string s\<close> reads a string literal behind its opening quote: the decoded
  text and the input behind the closing quote.\<close>

fun scan_string :: "ustring \<Rightarrow> (ustring \<times> ustring) option" where
  "scan_string [] = None"
| "scan_string (c # cs) =
     (if c = 34 then Some ([], cs)
      else if c = 92 then
        (case cs of
           [] \<Rightarrow> None
         | e # es \<Rightarrow>
             if e = 117 then
               (case hex4 (take 4 es) of
                  None \<Rightarrow> None
                | Some u \<Rightarrow>
                    (case (if 55296 \<le> u \<and> u \<le> 56319 then low_surrogate_at (drop 4 es) else None) of
                       Some u2 \<Rightarrow>
                         cons_chr (65536 + ((u - 55296) * 1024 + (u2 - 56320)))
                           (scan_string (drop 10 es))
                     | None \<Rightarrow> cons_chr u (scan_string (drop 4 es))))
             else (case unescape e of
                     None \<Rightarrow> None
                   | Some ch \<Rightarrow> cons_chr ch (scan_string es)))
      else if c < 32 then None
      else cons_chr c (scan_string cs))"

definition is_digit :: "nat \<Rightarrow> bool" where
  "is_digit c \<longleftrightarrow> 48 \<le> c \<and> c \<le> 57"

definition digits_val :: "ustring \<Rightarrow> nat" where
  "digits_val ds = foldl (\<lambda>a d. 10 * a + (d - 48)) 0 ds"

text \<open>
  \<open>scan_number s\<close> reads the longest prefix of \<open>s\<close> that matches
  \<^verbatim>\<open>(-?(?:0|[1-9][0-9]*))(\.[0-9]+)?([eE][-+]?[0-9]+)?\<close>.
\<close>

definition fraction_part :: "ustring \<Rightarrow> ustring" where
  "fraction_part s =
     (case s of
        [] \<Rightarrow> []
      | c # r \<Rightarrow> if c = 46 \<and> takeWhile is_digit r \<noteq> [] then c # takeWhile is_digit r else [])"

definition exponent_part :: "ustring \<Rightarrow> ustring" where
  "exponent_part s =
     (case s of
        [] \<Rightarrow> []
      | c # r \<Rightarrow>
          if c = 101 \<or> c = 69 then
            (case r of
               [] \<Rightarrow> []
             | g # r' \<Rightarrow>
                 if (g = 43 \<or> g = 45) \<and> takeWhile is_digit r' \<noteq> [] then c # g # takeWhile is_digit r'
                 else if takeWhile is_digit r \<noteq> [] then c # takeWhile is_digit r
                 else [])
          else [])"

definition scan_number :: "ustring \<Rightarrow> (json \<times> ustring) option" where
  "scan_number s =
     (let neg = (take 1 s = [45]);
          s1 = (if neg then drop 1 s else s);
          ds = takeWhile is_digit s1
      in if ds = [] then None
         else
           (let ip = (if take 1 ds = [48] then [48] else ds);
                s2 = drop (length ip) s1;
                fp = fraction_part s2;
                s3 = drop (length fp) s2;
                ep = exponent_part s3;
                s4 = drop (length ep) s3
            in if fp = [] \<and> ep = []
               then Some (JInt (if neg then - int (digits_val ip) else int (digits_val ip)), s4)
               else Some (JFloat ((if neg then [45] else []) @ ip @ fp @ ep), s4)))"

definition starts_with :: "ustring \<Rightarrow> ustring \<Rightarrow> bool" where
  "starts_with s p \<longleftrightarrow> take (length p) s = p"

definition cons_tok :: "token \<Rightarrow> token list option \<Rightarrow> token list option" where
  "cons_tok t r = map_option ((#) t) r"

text \<open>The scalar value (string, literal or number) at the head of the input, and the
  input behind it.\<close>

definition scan_scalar :: "ustring \<Rightarrow> (json \<times> ustring) option" where
  "scan_scalar s =
     (if starts_with s [34] then map_option (\<lambda>(str, rest). (JStr str, rest)) (scan_string (drop 1 s))
      else if starts_with s (U ''null'') then Some (JNull, drop 4 s)
      else if starts_with s (U ''true'') then Some (JBool True, drop 4 s)
      else if starts_with s (U ''false'') then Some (JBool False, drop 5 s)
      else (case scan_number s of
              Some r \<Rightarrow> Some r
            | None \<Rightarrow>
                if starts_with s (U ''NaN'') then Some (JFloat (U ''NaN''), drop 3 s)
                else if starts_with s (U ''Infinity'') then Some (JFloat (U ''Infinity''), drop 8 s)
                else if starts_with s (U ''-Infinity'') then Some (JFloat (U ''-Infinity''), drop 9 s)
                else None))"

lemma cons_chr_SomeD: "cons_chr c r = Some (str, rest) \<Longrightarrow> \<exists>a. r = Some (a, rest)"
  by (cases r) (auto simp: cons_chr_def)

lemma scan_string_cases:
  assumes "scan_string (c # cs) = Some (str, rest)"
  shows "rest = cs \<or> (\<exists>a. scan_string cs = Some (a, rest)) \<or>
         (\<exists>e es a. cs = e # es \<and>
            (scan_string es = Some (a, rest) \<or> scan_string (drop 4 es) = Some (a, rest) \<or>
             scan_string (drop 10 es) = Some (a, rest)))"
proof (cases "c = 34")
  case True
  with assms show ?thesis by simp
next
  case False
  note nq = this
  show ?thesis
  proof (cases "c = 92")
    case False
    with nq assms have "cons_chr c (scan_string cs) = Some (str, rest)"
      by (simp split: if_splits)
    from cons_chr_SomeD [OF this] show ?thesis by blast
  next
    case True
    show ?thesis
    proof (cases cs)
      case Nil
      with True assms show ?thesis by simp
    next
      case (Cons e es)
      show ?thesis
      proof (cases "e = 117")
        case False
        with True Cons assms obtain ch where "cons_chr ch (scan_string es) = Some (str, rest)"
          by (auto split: option.splits)
        from cons_chr_SomeD [OF this] Cons show ?thesis by blast
      next
        case u: True
        from True Cons u assms obtain x where
          "cons_chr x (scan_string (drop 4 es)) = Some (str, rest) \<or>
           cons_chr x (scan_string (drop 10 es)) = Some (str, rest)"
          by (simp split: option.splits) blast+
        with cons_chr_SomeD Cons show ?thesis by blast
      qed
    qed
  qed
qed

lemma scan_string_shorter: "scan_string s = Some (str, rest) \<Longrightarrow> length rest < length s"
proof (induction "length s" arbitrary: s str rest rule: less_induct)
  case less
  show ?case
  proof (cases s)
    case Nil
    with less.prems show ?thesis by simp
  next
    case (Cons c cs)
    have IH: "length rest < length s"
      if "scan_string s' = Some (a, rest)" and "length s' < length s" for s' a
      using less.hyps [OF that(2) that(1)] that(2) by simp
    from less.prems Cons have "scan_string (c # cs) = Some (str, rest)" by simp
    from scan_string_cases [OF this] consider
        (quote) "rest = cs"
      | (plain) a where "scan_string cs = Some (a, rest)"
      | (esc) e es a where "cs = e # es" "scan_string es = Some (a, rest)"
      | (uni) e es a where "cs = e # es" "scan_string (drop 4 es) = Some (a, rest)"
      | (pair) e es a where "cs = e # es" "scan_string (drop 10 es) = Some (a, rest)"
      by blast
    then show ?thesis
    proof cases
      case quote
      then show ?thesis by (simp add: Cons)
    next
      case plain
      then show ?thesis by (rule IH) (simp add: Cons)
    next
      case esc
      from esc(2) show ?thesis by (rule IH) (simp add: Cons esc(1))
    next
      case uni
      from uni(2) show ?thesis by (rule IH) (simp add: Cons uni(1))
    next
      case pair
      from pair(2) show ?thesis by (rule IH) (simp add: Cons pair(1))
    qed
  qed
qed

lemma scan_number_shorter: "scan_number s = Some (v, rest) \<Longrightarrow> length rest < length s"
proof -
  assume a: "scan_number s = Some (v, rest)"
  define s1 where "s1 = (if take 1 s = [45] then drop 1 s else s)"
  define ip where "ip = (if take 1 (takeWhile is_digit s1) = [48] then [48] else takeWhile is_digit s1)"
  from a have ne: "takeWhile is_digit s1 \<noteq> []"
    by (auto simp: scan_number_def Let_def s1_def split: if_splits)
  have le: "length (takeWhile is_digit s1) \<le> length s1"
    by (rule length_takeWhile_le)
  from ne have "0 < length (takeWhile is_digit s1)" by simp
  with le have pos: "0 < length s1" by linarith
  have ip1: "0 < length ip"
    using ne by (simp add: ip_def)
  have ip2: "length ip \<le> length s1"
    using le pos by (simp add: ip_def Suc_leI)
  from ip1 pos have "length s1 - length ip < length s1" by linarith
  then have "length (drop (length ip) s1) < length s1" by simp
  moreover have "length s1 \<le> length s" by (simp add: s1_def)
  moreover from a ne have "length rest \<le> length (drop (length ip) s1)"
    unfolding scan_number_def Let_def s1_def [symmetric] ip_def [symmetric]
    by (auto split: if_splits)
  ultimately show ?thesis by linarith
qed

lemma starts_with_nonempty: "starts_with s p \<Longrightarrow> p \<noteq> [] \<Longrightarrow> s \<noteq> []"
  by (auto simp: starts_with_def)

lemma scan_scalar_shorter: "scan_scalar s = Some (v, rest) \<Longrightarrow> length rest < length s"
proof -
  assume a: "scan_scalar s = Some (v, rest)"
  have dr: "length (drop n s) < length s" if "starts_with s p" "p \<noteq> []" "0 < n" for p n
    using starts_with_nonempty [OF that(1,2)] that(3) by simp
  have u: "U ''null'' \<noteq> []" "U ''true'' \<noteq> []" "U ''false'' \<noteq> []" "U ''NaN'' \<noteq> []"
    "U ''Infinity'' \<noteq> []" "U ''-Infinity'' \<noteq> []"
    by (simp_all add: U_def)
  show ?thesis
  proof (cases "starts_with s [34]")
    case True
    with a obtain str where "scan_string (drop 1 s) = Some (str, rest)"
      by (auto simp: scan_scalar_def)
    from scan_string_shorter [OF this] show ?thesis by simp
  next
    case False
    note q = this
    show ?thesis
    proof (cases "scan_number s")
      case (Some r)
      with a q dr u show ?thesis
        by (auto simp: scan_scalar_def split: if_splits dest: scan_number_shorter)
    next
      case None
      with a q dr u show ?thesis
        by (auto simp: scan_scalar_def split: if_splits)
    qed
  qed
qed

text \<open>The tokens of the input, or \<open>None\<close> at a character that starts no token.\<close>

function tokens :: "ustring \<Rightarrow> token list option" where
  "tokens [] = Some []"
| "tokens (c # cs) =
     (if c = 32 \<or> c = 9 \<or> c = 10 \<or> c = 13 then tokens cs
      else if c = lbrace then cons_tok TLBrace (tokens cs)
      else if c = rbrace then cons_tok TRBrace (tokens cs)
      else if c = lbracket then cons_tok TLBracket (tokens cs)
      else if c = rbracket then cons_tok TRBracket (tokens cs)
      else if c = comma then cons_tok TComma (tokens cs)
      else if c = 58 then cons_tok TColon (tokens cs)
      else (case scan_scalar (c # cs) of
              None \<Rightarrow> None
            | Some (v, rest) \<Rightarrow> cons_tok (TVal v) (tokens rest)))"
  by pat_completeness auto
termination
proof (relation "measure length")
  fix c :: nat and cs x2 v rest
  assume "scan_scalar (c # cs) = Some x2" and "(v, rest) = x2"
  then have "scan_scalar (c # cs) = Some (v, rest)" by simp
  from scan_scalar_shorter [OF this]
  show "(rest, c # cs) \<in> measure length" by simp
qed auto

text \<open>
  The grammar over the tokens, as a machine with a stack of the containers that are
  open: an array with the items read so far, or an object with its pairs and the key
  that waits for its value.
\<close>

datatype frame = FArr "json list" | FObj "(ustring \<times> json) list" "ustring option"

datatype phase = Value | ValueOrEnd | KeyOrEnd | Key | Colon | CommaOrEnd | Done json

fun obj_set :: "(ustring \<times> json) list \<Rightarrow> ustring \<Rightarrow> json \<Rightarrow> (ustring \<times> json) list" where
  "obj_set [] k v = [(k, v)]"
| "obj_set ((k', v') # ps) k v =
     (if k' = k then (k, v) # ps else (k', v') # obj_set ps k v)"

fun push_value :: "json \<Rightarrow> frame list \<Rightarrow> (frame list \<times> phase) option" where
  "push_value v [] = Some ([], Done v)"
| "push_value v (FArr items # st) = Some (FArr (items @ [v]) # st, CommaOrEnd)"
| "push_value v (FObj pairs (Some k) # st) = Some (FObj (obj_set pairs k v) None # st, CommaOrEnd)"
| "push_value v (FObj pairs None # st) = None"

fun close_array :: "frame list \<Rightarrow> (frame list \<times> phase) option" where
  "close_array (FArr items # st) = push_value (JArr items) st"
| "close_array _ = None"

fun close_object :: "frame list \<Rightarrow> (frame list \<times> phase) option" where
  "close_object (FObj pairs None # st) = push_value (JObj pairs) st"
| "close_object _ = None"

fun open_key :: "ustring \<Rightarrow> frame list \<Rightarrow> (frame list \<times> phase) option" where
  "open_key k (FObj pairs None # st) = Some (FObj pairs (Some k) # st, Colon)"
| "open_key k _ = None"

fun value_token :: "token \<Rightarrow> frame list \<Rightarrow> (frame list \<times> phase) option" where
  "value_token (TVal v) st = push_value v st"
| "value_token TLBracket st = Some (FArr [] # st, ValueOrEnd)"
| "value_token TLBrace st = Some (FObj [] None # st, KeyOrEnd)"
| "value_token _ st = None"

fun step :: "token \<Rightarrow> frame list \<times> phase \<Rightarrow> (frame list \<times> phase) option" where
  "step t (st, Done v) = None"
| "step t (st, Value) = value_token t st"
| "step t (st, ValueOrEnd) = (if t = TRBracket then close_array st else value_token t st)"
| "step t (st, KeyOrEnd) =
     (case t of TVal (JStr k) \<Rightarrow> open_key k st | TRBrace \<Rightarrow> close_object st | _ \<Rightarrow> None)"
| "step t (st, Key) = (case t of TVal (JStr k) \<Rightarrow> open_key k st | _ \<Rightarrow> None)"
| "step t (st, Colon) = (if t = TColon then Some (st, Value) else None)"
| "step t (st, CommaOrEnd) =
     (case t of
        TComma \<Rightarrow> (case st of
                     FArr items # st' \<Rightarrow> Some (st, Value)
                   | FObj pairs pending # st' \<Rightarrow> Some (st, Key)
                   | [] \<Rightarrow> None)
      | TRBracket \<Rightarrow> close_array st
      | TRBrace \<Rightarrow> close_object st
      | _ \<Rightarrow> None)"

fun run_tokens :: "token list \<Rightarrow> frame list \<times> phase \<Rightarrow> json option" where
  "run_tokens [] (st, ph) = (case ph of Done v \<Rightarrow> Some v | _ \<Rightarrow> None)"
| "run_tokens (t # ts) s = (case step t s of None \<Rightarrow> None | Some s' \<Rightarrow> run_tokens ts s')"

definition json_loads :: "ustring \<Rightarrow> py_exc + json" where
  "json_loads s =
     (case tokens s of
        None \<Rightarrow> Inl JSONDecodeError
      | Some ts \<Rightarrow>
          (case run_tokens ts ([], Value) of
             None \<Rightarrow> Inl JSONDecodeError
           | Some v \<Rightarrow> Inr v))"

section \<open>Timestamp formatting: \<^verbatim>\<open>format_time\<close> (src/utils/file_utils.py)\<close>

text \<open>
  Two things come from the host and are parameters of the model. The first is the local
  time zone: \<open>fromtimestamp h s\<close> is the calendar date and the time of day that
  \<^verbatim>\<open>datetime.fromtimestamp\<close> gives for the second \<open>s\<close> after the epoch, or \<open>None\<close> where the
  call raises (a value out of the platform's range; for such a value the division
  before the call may raise already, when the quotient is too large for a float). The
  second is the text \<^verbatim>\<open>str\<close> gives for a list or a dictionary, or the exception it
  raises.
\<close>

record datetime =
  year :: nat
  month :: nat
  day :: nat
  hour :: nat
  minute :: nat
  second :: nat

record host =
  fromtimestamp :: "int \<Rightarrow> datetime option"
  container_str :: "pyval \<Rightarrow> py_exc + ustring"

text \<open>Decimal digits of a natural number, padded with zeros to a width.\<close>

fun dec :: "nat \<Rightarrow> ustring" where
  "dec n = (if n < 10 then [48 + n] else dec (n div 10) @ [48 + n mod 10])"

declare dec.simps [simp del]

definition zfill :: "nat \<Rightarrow> nat \<Rightarrow> ustring" where
  "zfill width n = replicate (width - length (dec n)) 48 @ dec n"

text \<open>
  \<^verbatim>\<open>dt.strftime("%Y-%m-%d %H:%M:%S")\<close>. (For a year below 1000 the C library of some
  platforms writes \<^verbatim>\<open>%Y\<close> without the leading zeros; the model pads.)
\<close>

definition strftime :: "datetime \<Rightarrow> ustring" where
  "strftime dt =
     zfill 4 (year dt) @ [45] @ zfill 2 (month dt) @ [45] @ zfill 2 (day dt) @ [32] @
     zfill 2 (hour dt) @ [58] @ zfill 2 (minute dt) @ [58] @ zfill 2 (second dt)"

text \<open>
  \<^verbatim>\<open>str\<close> of a value. The conversion of an integer to text raises \<^verbatim>\<open>ValueError\<close> when the
  text would have more than 4300 digits (the interpreter's default limit).
\<close>

fun py_str :: "host \<Rightarrow> pyval \<Rightarrow> py_exc + ustring" where
  "py_str h (PStr s) = Inr s"
| "py_str h PNone = Inr (U ''None'')"
| "py_str h (PBool b) = Inr (if b then U ''True'' else U ''False'')"
| "py_str h (PInt n) =
     (let digits = dec (nat \<bar>n\<bar>) in
      if length digits > 4300 then Inl ValueError
      else Inr (if n < 0 then 45 # digits else digits))"
| "py_str h v = container_str h v"

text \<open>
  The operand of \<^verbatim>\<open>timestamp / 1000\<close>: integers and booleans divide, every other value
  raises \<^verbatim>\<open>TypeError\<close>.
\<close>

fun milliseconds :: "pyval \<Rightarrow> int option" where
  "milliseconds (PInt n) = Some n"
| "milliseconds (PBool b) = Some (if b then 1 else 0)"
| "milliseconds _ = None"

text \<open>The literal that the source returns for a missing timestamp: the two code points
  U+4E0D U+660E, the Japanese word for "unknown".\<close>

definition unknown_text :: ustring where
  "unknown_text = [19981, 26126]"

text \<open>
  \<^verbatim>\<open>
    if not timestamp: return <unknown_text>
    try:    return datetime.fromtimestamp(timestamp / 1000).strftime("%Y-%m-%d %H:%M:%S")
    except: return str(timestamp)
  \<close>
  The quotient \<^verbatim>\<open>timestamp / 1000\<close> is a time in seconds with a fraction; the format prints
  no fraction, so the text is that of the whole second \<open>ms div 1000\<close> (rounded down, also
  before the epoch). An exception of \<^verbatim>\<open>str\<close> in the handler leaves the function.
\<close>

definition format_time :: "host \<Rightarrow> pyval \<Rightarrow> py_exc + ustring" where
  "format_time h timestamp =
     (if \<not> truthy timestamp then Inr unknown_text
      else (case milliseconds timestamp of
              None \<Rightarrow> py_str h timestamp
            | Some ms \<Rightarrow>
                (case fromtimestamp h (ms div 1000) of
                   Some dt \<Rightarrow> Inr (strftime dt)
                 | None \<Rightarrow> py_str h timestamp)))"



subsection \<open>A sample host\<close>

text \<open>
  A host whose time zone is UTC and whose conversion is defined from the epoch to the
  end of the year 9999; the date is computed from the day number in the proleptic
  Gregorian calendar. Its \<open>container_str\<close> writes a list or a dictionary the way
  \<^verbatim>\<open>repr\<close> does when the strings inside consist of printable characters without quotes
  and backslashes.
\<close>

definition civil_from_days :: "int \<Rightarrow> int \<times> int \<times> int" where
  "civil_from_days z0 =
     (let z = z0 + 719468;
          era = z div 146097;
          doe = z mod 146097;
          yoe = (doe - doe div 1460 + doe div 36524 - doe div 146096) div 365;
          doy = doe - (365 * yoe + yoe div 4 - yoe div 100);
          mp = (5 * doy + 2) div 153;
          d = doy - (153 * mp + 2) div 5 + 1;
          m = (if mp < 10 then mp + 3 else mp - 9);
          y = yoe + era * 400 + (if m \<le> 2 then 1 else 0)
      in (y, m, d))"

definition utc_datetime :: "int \<Rightarrow> datetime option" where
  "utc_datetime secs =
     (if secs < 0 \<or> 253402300800 \<le> secs then None
      else
        (let (y, m, d) = civil_from_days (secs div 86400);
             sod = secs mod 86400
         in Some \<lparr>year = nat y, month = nat m, day = nat d, hour = nat (sod div 3600),
                  minute = nat (sod mod 3600 div 60), second = nat (sod mod 60)\<rparr>))"

definition join_comma :: "ustring list \<Rightarrow> ustring" where
  "join_comma xs = concat (case xs of [] \<Rightarrow> [] | x # r \<Rightarrow> x # map (\<lambda>y. U '', '' @ y) r)"

fun sample_repr :: "pyval \<Rightarrow> ustring" where
  "sample_repr PNone = U ''None''"
| "sample_repr (PBool b) = (if b then U ''True'' else U ''False'')"
| "sample_repr (PInt n) = (if n < 0 then 45 # dec (nat (- n)) else dec (nat n))"
| "sample_repr (PStr s) = [39] @ s @ [39]"
| "sample_repr (PList xs) = [91] @ join_comma (map sample_repr xs) @ [93]"
| "sample_repr (PDict kvs) =
     [123] @ join_comma (map (\<lambda>kv. [39] @ fst kv @ [39] @ U '': '' @ sample_repr (snd kv)) kvs) @ [125]"

definition utc_host :: host where
  "utc_host = \<lparr>fromtimestamp = utc_datetime, container_str = (\<lambda>v. Inr (sample_repr v))\<rparr>"

section \<open>The record normalizer: \<^verbatim>\<open>get_chat_data\<close> (src/extractor/cursor_data_extractor.py)\<close>

text \<open>
  The normalizer works on the values that \<^verbatim>\<open>safe_parse_json\<close> returned for the two storage
  keys. Every exception inside the chat block, and inside the composer block, is caught
  by that block's \<^verbatim>\<open>except Exception\<close>, which prints it: what was appended to
  \<^verbatim>\<open>result["chats"]\<close> or \<^verbatim>\<open>result["composers"]\<close> before the exception stays.
\<close>

definition bnd :: "py_exc + 'a \<Rightarrow> ('a \<Rightarrow> py_exc + 'b) \<Rightarrow> py_exc + 'b" where
  "bnd r f = (case r of Inl e \<Rightarrow> Inl e | Inr v \<Rightarrow> f v)"

text \<open>\<^verbatim>\<open>x[:n]\<close>, \<^verbatim>\<open>key in x\<close> and \<^verbatim>\<open>x[key]\<close> for a string \<^verbatim>\<open>key\<close>, and \<^verbatim>\<open>x == n\<close> for an
  integer \<^verbatim>\<open>n\<close>.\<close>

fun py_slice_to :: "nat \<Rightarrow> pyval \<Rightarrow> py_exc + pyval" where
  "py_slice_to n (PStr s) = Inr (PStr (take n s))"
| "py_slice_to n (PList xs) = Inr (PList (take n xs))"
| "py_slice_to n _ = Inl TypeError"

fun py_contains :: "pyval \<Rightarrow> ustring \<Rightarrow> py_exc + bool" where
  "py_contains (PDict d) k = Inr (map_of d k \<noteq> None)"
| "py_contains (PList xs) k = Inr (PStr k \<in> set xs)"
| "py_contains (PStr s) k = Inr (sublist k s)"
| "py_contains _ k = Inl TypeError"

fun py_index :: "pyval \<Rightarrow> ustring \<Rightarrow> py_exc + pyval" where
  "py_index (PDict d) k = (case map_of d k of None \<Rightarrow> Inl KeyError | Some v \<Rightarrow> Inr v)"
| "py_index _ k = Inl TypeError"

definition py_eq_int :: "pyval \<Rightarrow> int \<Rightarrow> bool" where
  "py_eq_int v n \<longleftrightarrow> hash_key v = Inr (PInt n)"

subsection \<open>Chat tabs\<close>

text \<open>
  \<^verbatim>\<open>
    for bubble in bubbles:
        if not bubble: continue
        message = {"type": bubble.get('type', 'unknown'), "text": bubble.get('text', ''),
                   "timestamp": format_time(bubble.get('timestamp', ''))}
        if message["text"]: chat_info["messages"].append(message)
  \<close>
  \<open>bubble_message\<close> is one turn of the loop: the message it appends, if any.
\<close>

definition bubble_message :: "host \<Rightarrow> pyval \<Rightarrow> py_exc + pyval option" where
  "bubble_message h bubble =
     (if \<not> truthy bubble then Inr None
      else
        bnd (py_get bubble (U ''type'') (PStr (U ''unknown''))) (\<lambda>ty.
        bnd (py_get bubble (U ''text'') (PStr [])) (\<lambda>text.
        bnd (py_get bubble (U ''timestamp'') (PStr [])) (\<lambda>ts.
        bnd (format_time h ts) (\<lambda>time.
          if truthy text
          then Inr (Some (PDict [(U ''type'', ty), (U ''text'', text), (U ''timestamp'', PStr time)]))
          else Inr None)))))"

fun bubble_messages :: "host \<Rightarrow> pyval list \<Rightarrow> pyval list \<Rightarrow> py_exc + pyval list" where
  "bubble_messages h [] messages = Inr messages"
| "bubble_messages h (bubble # bubbles) messages =
     bnd (bubble_message h bubble) (\<lambda>m.
       bubble_messages h bubbles (case m of None \<Rightarrow> messages | Some message \<Rightarrow> messages @ [message]))"

text \<open>The \<^verbatim>\<open>chat_info\<close> of one tab. The default of the title is evaluated before the
  lookup, so a \<^verbatim>\<open>tabId\<close> that cannot be sliced raises also when a title is present.\<close>

definition chat_of_tab :: "host \<Rightarrow> pyval \<Rightarrow> py_exc + pyval" where
  "chat_of_tab h tab =
     bnd (py_get tab (U ''tabId'') (PStr [])) (\<lambda>tab_id.
     bnd (py_slice_to 8 tab_id) (\<lambda>short_id.
     bnd (py_str h short_id) (\<lambda>short_text.
     bnd (py_get tab (U ''chatTitle'') (PStr (U ''Chat '' @ short_text))) (\<lambda>title.
     bnd (py_get tab (U ''lastSendTime'') (PStr [])) (\<lambda>last_send.
     bnd (format_time h last_send) (\<lambda>time.
     bnd (py_get tab (U ''created_at'') (PStr [])) (\<lambda>created_at.
     bnd (py_get tab (U ''bubbles'') (PList [])) (\<lambda>b.
     bnd (py_iter (if truthy b then b else PList [])) (\<lambda>bubbles.
     bnd (bubble_messages h bubbles []) (\<lambda>messages.
       Inr (PDict [(U ''id'', tab_id), (U ''title'', title), (U ''timestamp'', PStr time),
                   (U ''created_at'', created_at), (U ''messages'', PList messages)])))))))))))"

text \<open>The chats appended to \<^verbatim>\<open>result["chats"]\<close> by the loop over the tabs.\<close>

fun chats_of_tabs :: "host \<Rightarrow> pyval list \<Rightarrow> pyval list" where
  "chats_of_tabs h [] = []"
| "chats_of_tabs h (tab # tabs) =
     (case chat_of_tab h tab of Inl e \<Rightarrow> [] | Inr chat \<Rightarrow> chat # chats_of_tabs h tabs)"

text \<open>
  \<^verbatim>\<open>if chat_data and 'tabs' in chat_data and isinstance(chat_data['tabs'], list)\<close>:
  for a value that is not a dictionary the guard is false or raises, and no chat is
  appended.
\<close>

definition extract_chats :: "host \<Rightarrow> pyval \<Rightarrow> pyval list" where
  "extract_chats h chat_data =
     (case chat_data of
        PDict d \<Rightarrow> (case map_of d (U ''tabs'') of
                      Some (PList tabs) \<Rightarrow> chats_of_tabs h tabs
                    | _ \<Rightarrow> [])
      | _ \<Rightarrow> [])"

subsection \<open>Composers\<close>

text \<open>
  \<^verbatim>\<open>
    msg_type = "unknown"
    if 'type' in msg:   msg_type = "user" if msg.get('type') == 1 else "assistant"
    elif 'role' in msg: msg_type = msg.get('role')
  \<close>
\<close>

definition resolve_type :: "pyval \<Rightarrow> py_exc + pyval" where
  "resolve_type msg =
     bnd (py_contains msg (U ''type'')) (\<lambda>has_type.
       if has_type then
         bnd (py_get msg (U ''type'') PNone) (\<lambda>t.
           Inr (PStr (if py_eq_int t 1 then U ''user'' else U ''assistant'')))
       else
         bnd (py_contains msg (U ''role'')) (\<lambda>has_role.
           if has_role then py_get msg (U ''role'') PNone else Inr (PStr (U ''unknown''))))"

text \<open>
  \<^verbatim>\<open>
    text = ""
    for key in ['text', 'content', 'message']:
        if key in msg and msg[key]: text = msg[key]; break
  \<close>
\<close>

fun resolve_text :: "pyval \<Rightarrow> ustring list \<Rightarrow> py_exc + pyval" where
  "resolve_text msg [] = Inr (PStr [])"
| "resolve_text msg (key # keys) =
     bnd (py_contains msg key) (\<lambda>has_key.
       if has_key then
         bnd (py_index msg key) (\<lambda>v. if truthy v then Inr v else resolve_text msg keys)
       else resolve_text msg keys)"

text \<open>One turn of the loop over the conversation: the message is appended whatever its
  text is; only a falsy entry is skipped.\<close>

definition conversation_message :: "host \<Rightarrow> pyval \<Rightarrow> py_exc + pyval option" where
  "conversation_message h msg =
     (if \<not> truthy msg then Inr None
      else
        bnd (resolve_type msg) (\<lambda>msg_type.
        bnd (resolve_text msg [U ''text'', U ''content'', U ''message'']) (\<lambda>text.
        bnd (py_get msg (U ''timestamp'') PNone) (\<lambda>ts.
        bnd (format_time h ts) (\<lambda>time.
          Inr (Some (PDict [(U ''type'', msg_type), (U ''text'', text),
                            (U ''timestamp'', PStr time)])))))))"

fun conversation_messages :: "host \<Rightarrow> pyval list \<Rightarrow> pyval list \<Rightarrow> py_exc + pyval list" where
  "conversation_messages h [] conversation = Inr conversation"
| "conversation_messages h (msg # msgs) conversation =
     bnd (conversation_message h msg) (\<lambda>m.
       conversation_messages h msgs
         (case m of None \<Rightarrow> conversation | Some message \<Rightarrow> conversation @ [message]))"

text \<open>The first of the candidate keys whose value is a list; the empty list otherwise.\<close>

definition conversation_keys :: "ustring list" where
  "conversation_keys = [U ''conversation'', U ''history'', U ''messages'', U ''interactions'']"

fun find_conversation :: "pydict \<Rightarrow> ustring list \<Rightarrow> pyval list" where
  "find_conversation composer [] = []"
| "find_conversation composer (key # keys) =
     (case map_of composer key of
        Some (PList msgs) \<Rightarrow> msgs
      | _ \<Rightarrow> find_conversation composer keys)"

text \<open>
  \<^verbatim>\<open>detail = composer_details.get(composer_id, {})\<close>: the keys of \<^verbatim>\<open>composer_details\<close> are
  strings, so only a string id can find something; an unhashable id raises.
  \<^verbatim>\<open>for key, value in detail.items(): composer[key] = value\<close> needs a dictionary.
\<close>

definition lookup_detail :: "pydict \<Rightarrow> pyval \<Rightarrow> py_exc + pyval" where
  "lookup_detail composer_details composer_id =
     bnd (hash_key composer_id) (\<lambda>k.
       Inr (case k of PStr s \<Rightarrow> dict_get composer_details s (PDict []) | _ \<Rightarrow> PDict []))"

fun merge_detail :: "pydict \<Rightarrow> pyval \<Rightarrow> py_exc + pydict" where
  "merge_detail composer (PDict detail) =
     Inr (foldl (\<lambda>c (key, value). dict_set c key value) composer detail)"
| "merge_detail composer detail = (if truthy detail then Inl AttributeError else Inr composer)"

text \<open>The composer of one turn, with its detail merged in.\<close>

definition merged_composer :: "pydict \<Rightarrow> pyval \<Rightarrow> py_exc + pyval \<times> pydict" where
  "merged_composer composer_details composer0 =
     bnd (py_get composer0 (U ''composerId'') (PStr [])) (\<lambda>composer_id.
       if \<not> truthy composer_id then Inr (composer_id, [])
       else
         bnd (lookup_detail composer_details composer_id) (\<lambda>detail.
         bnd (merge_detail (case composer0 of PDict d \<Rightarrow> d | _ \<Rightarrow> []) detail) (\<lambda>composer.
           Inr (composer_id, composer))))"

definition composer_title :: "host \<Rightarrow> pydict \<Rightarrow> pyval \<Rightarrow> py_exc + pyval" where
  "composer_title h composer composer_id =
     (let name = dict_get composer (U ''name'') (PStr []) in
      if truthy name then Inr name
      else
        (let text = dict_get composer (U ''text'') (PStr []) in
         if truthy text then py_slice_to 30 text
         else bnd (py_slice_to 8 composer_id) (\<lambda>short_id.
              bnd (py_str h short_id) (\<lambda>short_text.
                Inr (PStr (U ''Composer '' @ short_text))))))"

text \<open>One turn of the loop that builds the composers: the \<^verbatim>\<open>composer_info\<close> it is about to
  append, if any. \<open>safe_mode\<close> is the flag \<^verbatim>\<open>SAFE_MODE\<close>: in safe mode the conversation is not
  loaded.\<close>

definition composer_info :: "bool \<Rightarrow> host \<Rightarrow> pydict \<Rightarrow> pyval \<Rightarrow> py_exc + pyval option" where
  "composer_info safe_mode h composer_details composer0 =
     bnd (merged_composer composer_details composer0) (\<lambda>(composer_id, composer).
       if \<not> truthy composer_id then Inr None
       else
         bnd (composer_title h composer composer_id) (\<lambda>title.
         bnd (format_time h (dict_get composer (U ''createdAt'') PNone)) (\<lambda>created.
         bnd (format_time h (dict_get composer (U ''lastUpdatedAt'') PNone)) (\<lambda>updated.
           (let info = [(U ''id'', composer_id), (U ''title'', title),
                        (U ''text'', dict_get composer (U ''text'') (PStr [])),
                        (U ''created_at'', PStr created), (U ''updated_at'', PStr updated)]
            in if safe_mode then Inr (Some (PDict (info @ [(U ''conversation'', PList [])])))
               else
                 bnd (conversation_messages h (find_conversation composer conversation_keys) [])
                   (\<lambda>conversation.
                      Inr (Some (PDict (info @ [(U ''conversation'', PList conversation)])))))))))"

text \<open>
  The loop over the composers. \<open>intact\<close> says whether the name \<^verbatim>\<open>result\<close> still refers to
  the result dictionary: when it does not (see below), the first
  \<^verbatim>\<open>result["composers"].append(composer_info)\<close> raises \<^verbatim>\<open>TypeError\<close>.
\<close>

fun composer_infos :: "bool \<Rightarrow> host \<Rightarrow> pydict \<Rightarrow> bool \<Rightarrow> pyval list \<Rightarrow> pyval list" where
  "composer_infos safe_mode h composer_details intact [] = []"
| "composer_infos safe_mode h composer_details intact (composer # composers) =
     (case composer_info safe_mode h composer_details composer of
        Inl e \<Rightarrow> []
      | Inr None \<Rightarrow> composer_infos safe_mode h composer_details intact composers
      | Inr (Some info) \<Rightarrow>
          if intact then info # composer_infos safe_mode h composer_details intact composers
          else [])"

text \<open>
  \<^verbatim>\<open>missing_data\<close>: whether some composer has neither \<^verbatim>\<open>text\<close> nor \<^verbatim>\<open>name\<close>; the scan stops
  at the first such composer.
\<close>

fun missing_data :: "pyval list \<Rightarrow> py_exc + bool" where
  "missing_data [] = Inr False"
| "missing_data (composer # composers) =
     bnd (py_get composer (U ''text'') PNone) (\<lambda>text.
       if truthy text then missing_data composers
       else bnd (py_get composer (U ''name'') PNone) (\<lambda>name.
              if truthy name then missing_data composers else Inr True))"

text \<open>
  The lookup in the global database is a parameter \<open>fetch\<close>; it returns the dictionary
  \<^verbatim>\<open>composer_details\<close> (empty when no connection is available) or raises. It has two ways to
  read. The query on the table \<^verbatim>\<open>cursorDiskKV\<close> leaves the rest of the function alone:
  \<open>Details\<close>. The fallback on \<^verbatim>\<open>ItemTable\<close> stores each row it fetches in the variable
  \<^verbatim>\<open>result\<close>, the name of the result dictionary: after it, \<^verbatim>\<open>result\<close> is the last row (a
  tuple holding the value, or \<^verbatim>\<open>None\<close>), no composer can be appended, and
  \<^verbatim>\<open>get_chat_data\<close> returns that row: \<open>Rebound\<close>.
\<close>

datatype fetched = Details pydict | Rebound pydict "pyval option"

text \<open>
  \<open>global_db\<close> is the outcome of locating the global database: whether
  \<^verbatim>\<open>global_db_path and global_db_path.exists()\<close> holds, or the exception of
  \<^verbatim>\<open>get_global_storage_dir\<close>. The lookup happens only outside safe mode and when data is
  missing.
\<close>

definition composer_details_of ::
    "bool \<Rightarrow> py_exc + bool \<Rightarrow> (pyval list \<Rightarrow> py_exc + fetched) \<Rightarrow> pyval list \<Rightarrow> py_exc + fetched" where
  "composer_details_of safe_mode global_db fetch composers =
     bnd global_db (\<lambda>db_exists.
     bnd (missing_data composers) (\<lambda>missing.
       if \<not> safe_mode \<and> missing \<and> db_exists then fetch composers else Inr (Details [])))"

text \<open>What \<^verbatim>\<open>result\<close> refers to at the end, and the composers appended to
  \<^verbatim>\<open>result["composers"]\<close>.\<close>

datatype binding = Result_dict | Result_row "pyval option"

definition extract_composers ::
    "bool \<Rightarrow> host \<Rightarrow> py_exc + bool \<Rightarrow> (pyval list \<Rightarrow> py_exc + fetched) \<Rightarrow> pyval \<Rightarrow>
     pyval list \<times> binding" where
  "extract_composers safe_mode h global_db fetch composer_data =
     (case composer_data of
        PDict d \<Rightarrow>
          (case map_of d (U ''allComposers'') of
             Some (PList composers) \<Rightarrow>
               (case composer_details_of safe_mode global_db fetch composers of
                  Inl e \<Rightarrow> ([], Result_dict)
                | Inr (Details composer_details) \<Rightarrow>
                    (composer_infos safe_mode h composer_details True composers, Result_dict)
                | Inr (Rebound composer_details row) \<Rightarrow>
                    (composer_infos safe_mode h composer_details False composers, Result_row row))
           | _ \<Rightarrow> ([], Result_dict))
      | _ \<Rightarrow> ([], Result_dict))"

text \<open>
  \<^verbatim>\<open>get_chat_data\<close>, from the parsed values of the two storage keys on (\<^verbatim>\<open>None\<close> for a key
  without row): the result dictionary, or the row that the fallback left in \<^verbatim>\<open>result\<close>.
\<close>

datatype extraction = Extraction pydict | Fetched_row "pyval option"

definition get_chat_data ::
    "ustring \<Rightarrow> ustring \<Rightarrow> bool \<Rightarrow> host \<Rightarrow> py_exc + bool \<Rightarrow> (pyval list \<Rightarrow> py_exc + fetched) \<Rightarrow>
     pyval \<Rightarrow> pyval \<Rightarrow> extraction" where
  "get_chat_data workspace_id workspace_path safe_mode h global_db fetch chat_data composer_data =
     (let chats = extract_chats h chat_data;
          (composers, bound) = extract_composers safe_mode h global_db fetch composer_data
      in case bound of
           Result_dict \<Rightarrow>
             Extraction [(U ''workspace_id'', PStr workspace_id),
                         (U ''workspace_path'', PStr workspace_path),
                         (U ''chats'', PList chats), (U ''composers'', PList composers)]
         | Result_row row \<Rightarrow> Fetched_row row)"

text \<open>A global database without connection: nothing is fetched.\<close>

definition no_fetch :: "pyval list \<Rightarrow> py_exc + fetched" where
  "no_fetch composers = Inr (Details [])"

subsection \<open>What the specification asks of the normalizer\<close>

text \<open>A message has a text that is not empty.\<close>

definition has_text :: "pyval \<Rightarrow> bool" where
  "has_text m \<longleftrightarrow>
     (case m of
        PDict d \<Rightarrow> (case map_of d (U ''text'') of Some v \<Rightarrow> truthy v | None \<Rightarrow> False)
      | _ \<Rightarrow> False)"

text \<open>A bubble that is not empty and whose text is not empty.\<close>

definition keeps_text :: "pyval \<Rightarrow> bool" where
  "keeps_text bubble \<longleftrightarrow>
     (case bubble of PDict d \<Rightarrow> d \<noteq> [] \<and> truthy (dict_get d (U ''text'') (PStr [])) | _ \<Rightarrow> False)"





subsection \<open>Sample inputs\<close>

text \<open>A chat document with one tab and two bubbles, the second with empty text; a
  composer document whose conversation uses the numeric type codes and holds a message
  without text; the same composer with a stray entry in its conversation.\<close>

definition sample_chat_data :: pyval where
  "sample_chat_data =
     PDict [(U ''tabs'',
       PList [PDict [(U ''tabId'', PStr (U ''test-tab-1'')),
                     (U ''chatTitle'', PStr (U ''Test Chat 1'')),
                     (U ''lastSendTime'', PInt 1625097600000),
                     (U ''bubbles'',
                        PList [PDict [(U ''type'', PStr (U ''user'')),
                                      (U ''text'', PStr (U ''Hello'')),
                                      (U ''timestamp'', PInt 1625097600000)],
                               PDict [(U ''type'', PStr (U ''assistant'')),
                                      (U ''text'', PStr []),
                                      (U ''timestamp'', PInt 1625097601000)]])]])]"

definition sample_conversation :: "pyval list" where
  "sample_conversation =
     [PDict [(U ''type'', PInt 1), (U ''text'', PStr (U ''Question''))],
      PDict [(U ''type'', PInt 2), (U ''text'', PStr [])],
      PDict [(U ''role'', PStr (U ''system'')), (U ''content'', PStr (U ''Note''))]]"

definition sample_composer :: "pyval list \<Rightarrow> pyval" where
  "sample_composer conversation =
     PDict [(U ''composerId'', PStr (U ''composer-1'')),
            (U ''name'', PStr (U ''Test Composer'')),
            (U ''conversation'', PList conversation)]"

definition sample_composer_data :: "pydict" where
  "sample_composer_data = [(U ''allComposers'', PList [sample_composer sample_conversation])]"

definition sample_messages :: "pyval list" where
  "sample_messages =
     [PDict [(U ''type'', PStr (U ''user'')), (U ''text'', PStr (U ''Question'')),
             (U ''timestamp'', PStr unknown_text)],
      PDict [(U ''type'', PStr (U ''assistant'')), (U ''text'', PStr []),
             (U ''timestamp'', PStr unknown_text)],
      PDict [(U ''type'', PStr (U ''system'')), (U ''text'', PStr (U ''Note'')),
             (U ''timestamp'', PStr unknown_text)]]"

definition sample_composer_info :: "pyval list \<Rightarrow> pyval" where
  "sample_composer_info conversation =
     PDict [(U ''id'', PStr (U ''composer-1'')), (U ''title'', PStr (U ''Test Composer'')),
            (U ''text'', PStr []), (U ''created_at'', PStr unknown_text),
            (U ''updated_at'', PStr unknown_text), (U ''conversation'', PList conversation)]"

definition sample_chat :: pyval where
  "sample_chat =
     PDict [(U ''id'', PStr (U ''test-tab-1'')), (U ''title'', PStr (U ''Test Chat 1'')),
            (U ''timestamp'', PStr (U ''2021-07-01 00:00:00'')), (U ''created_at'', PStr []),
            (U ''messages'',
               PList [PDict [(U ''type'', PStr (U ''user'')), (U ''text'', PStr (U ''Hello'')),
                             (U ''timestamp'', PStr (U ''2021-07-01 00:00:00''))]])]"

section \<open>The output file name: \<^verbatim>\<open>save_json_file\<close> (src/utils/file_utils.py)\<close>

text \<open>
  \<^verbatim>\<open>\w\<close> in a \<^verbatim>\<open>str\<close> pattern matches the underscore and every code point for which
  \<^verbatim>\<open>str.isalnum\<close> holds, in the whole of Unicode. The ASCII part is written out; the
  rest of the Unicode database is the parameter \<open>alnum\<close>.
\<close>

definition is_word :: "(nat \<Rightarrow> bool) \<Rightarrow> nat \<Rightarrow> bool" where
  "is_word alnum c \<longleftrightarrow>
     (48 \<le> c \<and> c \<le> 57) \<or> (65 \<le> c \<and> c \<le> 90) \<or> (97 \<le> c \<and> c \<le> 122) \<or> c = 95 \<or>
     (128 \<le> c \<and> alnum c)"

text \<open>\<^verbatim>\<open>s.split(sep)\<close> for a separator of one character.\<close>

fun split_on :: "nat \<Rightarrow> ustring \<Rightarrow> ustring list" where
  "split_on sep [] = [[]]"
| "split_on sep (c # cs) =
     (if c = sep then [] # split_on sep cs
      else (case split_on sep cs of
              [] \<Rightarrow> [[c]]
            | p # ps \<Rightarrow> (c # p) # ps))"

text \<open>
  \<^verbatim>\<open>
    workspace_path = data.get("workspace_path", "unknown")
    path_id = ""
    if workspace_path and workspace_path != "Unknown":
        try:
            if "\\" in workspace_path: path_parts = workspace_path.split("\\")
            else:                      path_parts = workspace_path.split("/")
            for part in reversed(path_parts):
                if part and part not in [".", ".."]:
                    safe_part = re.sub(r'[^\w\-]', '', part)
                    path_id = "_" + safe_part[:20]
                    break
        except Exception as e:
            path_id = "_unknown"
  \<close>
  A path that is not a string has no \<^verbatim>\<open>split\<close> (or cannot be searched): the handler sets
  \<^verbatim>\<open>"_unknown"\<close>.
\<close>

definition safe_part :: "(nat \<Rightarrow> bool) \<Rightarrow> ustring \<Rightarrow> ustring" where
  "safe_part alnum part = filter (\<lambda>c. is_word alnum c \<or> c = 45) part"

definition path_id :: "(nat \<Rightarrow> bool) \<Rightarrow> pydict \<Rightarrow> ustring" where
  "path_id alnum data =
     (let workspace_path = dict_get data (U ''workspace_path'') (PStr (U ''unknown'')) in
      if truthy workspace_path \<and> workspace_path \<noteq> PStr (U ''Unknown'') then
        (case workspace_path of
           PStr p \<Rightarrow>
             (let path_parts = (if 92 \<in> set p then split_on 92 p else split_on 47 p) in
              case find (\<lambda>part. part \<noteq> [] \<and> part \<noteq> U ''.'' \<and> part \<noteq> U ''..'') (rev path_parts) of
                None \<Rightarrow> []
              | Some part \<Rightarrow> 95 # take 20 (safe_part alnum part))
         | _ \<Rightarrow> U ''_unknown'')
      else [])"

text \<open>
  \<^verbatim>\<open>
    filename = f"ws_{timestamp}{path_id}.json"
    if len(filename) > 200: filename = f"ws_{timestamp}.json"
  \<close>
  \<open>timestamp\<close> is the date text that the first part of the function has resolved, from a
  \<^verbatim>\<open>created_at\<close> or from the clock.
\<close>

definition output_filename :: "(nat \<Rightarrow> bool) \<Rightarrow> ustring \<Rightarrow> pydict \<Rightarrow> ustring" where
  "output_filename alnum timestamp data =
     (let filename = U ''ws_'' @ timestamp @ path_id alnum data @ U ''.json'' in
      if length filename > 200 then U ''ws_'' @ timestamp @ U ''.json'' else filename)"

text \<open>The characters that the specification allows in a file name: \<^verbatim>\<open>[A-Za-z0-9_.-]\<close>.\<close>

definition allowed_char :: "nat \<Rightarrow> bool" where
  "allowed_char c \<longleftrightarrow>
     (48 \<le> c \<and> c \<le> 57) \<or> (65 \<le> c \<and> c \<le> 90) \<or> (97 \<le> c \<and> c \<le> 122) \<or>
     c = 95 \<or> c = 46 \<or> c = 45"

text \<open>
  A part of the Unicode database, enough for the sample paths: the alphanumeric code
  points of the Latin-1 supplement and the katakana letters.
\<close>

definition sample_alnum :: "nat \<Rightarrow> bool" where
  "sample_alnum c \<longleftrightarrow>
     c = 170 \<or> c = 178 \<or> c = 179 \<or> c = 181 \<or> c = 185 \<or> c = 186 \<or> (188 \<le> c \<and> c \<le> 190) \<or>
     (192 \<le> c \<and> c \<le> 214) \<or> (216 \<le> c \<and> c \<le> 246) \<or> (248 \<le> c \<and> c \<le> 255) \<or>
     (12449 \<le> c \<and> c \<le> 12538)"

text \<open>The path \<^verbatim>\<open>C:\Users\test\\<close> followed by two katakana words, as in the repository's
  test of the path handling.\<close>

definition katakana_path :: ustring where
  "katakana_path =
     U ''C:'' @ [92] @ U ''Users'' @ [92] @ U ''test'' @ [92] @
     [12503, 12525, 12472, 12455, 12463, 12488] @ [92] @ [12486, 12473, 12488]"

section \<open>The safe database accessor (src/core/db_utils.py)\<close>

text \<open>
  What the accessor sees of the file system and of SQLite is an environment: the answers
  of \<^verbatim>\<open>os.path.exists\<close>, \<^verbatim>\<open>os.access\<close> and \<^verbatim>\<open>os.path.getsize\<close> (which raises \<^verbatim>\<open>OSError\<close> when
  the file is gone by then), the outcome of the platform's lock probe, and the outcomes
  of the two ways to connect. \<open>'c\<close> is the type of connections.
\<close>

datatype probe = Probe_free | Probe_locked | Probe_open_failed | Probe_error

datatype 'c attempt =
    Opened 'c
  | Operational_error "'c option" ustring
  | Other_error

record 'c db_env =
  file_exists :: bool
  file_readable :: bool
  file_size :: "py_exc + nat"
  lock_probe :: probe
  uri_connect :: "'c attempt"
  direct_connect :: "'c attempt"

text \<open>\<^verbatim>\<open>str.lower\<close> on the ASCII letters (the messages of SQLite are ASCII).\<close>

definition lower :: "ustring \<Rightarrow> ustring" where
  "lower s = map (\<lambda>c. if 65 \<le> c \<and> c \<le> 90 then c + 32 else c) s"

text \<open>
  The last step of \<^verbatim>\<open>get_db_connection\<close>. An \<^verbatim>\<open>OperationalError\<close> that says "database is
  locked" is unavailable; one that says "no such table" returns the connection, and when
  \<^verbatim>\<open>connect\<close> itself raised there is none (\<^verbatim>\<open>UnboundLocalError\<close>, caught by the outer
  handler); any other exception tries the direct connection.
\<close>

definition open_connection :: "'c db_env \<Rightarrow> 'c option" where
  "open_connection env =
     (case uri_connect env of
        Opened conn \<Rightarrow> Some conn
      | Operational_error conn msg \<Rightarrow>
          if sublist (U ''database is locked'') msg then None
          else if sublist (U ''no such table'') (lower msg) then conn
          else None
      | Other_error \<Rightarrow>
          (case direct_connect env of
             Opened conn \<Rightarrow> Some conn
           | _ \<Rightarrow> None))"

text \<open>
  \<^verbatim>\<open>get_db_connection\<close>: the three checks of the file come first, outside every
  \<^verbatim>\<open>try\<close>; then the lock probe, where every failure is "unavailable"; then the
  connection.
\<close>

definition get_db_connection :: "'c db_env \<Rightarrow> py_exc + 'c option" where
  "get_db_connection env =
     (if \<not> file_exists env then Inr None
      else if \<not> file_readable env then Inr None
      else
        (case file_size env of
           Inl e \<Rightarrow> Inl e
         | Inr bytes \<Rightarrow>
             if bytes = 0 then Inr None
             else (case lock_probe env of
                     Probe_free \<Rightarrow> Inr (open_connection env)
                   | _ \<Rightarrow> Inr None)))"

text \<open>
  \<^verbatim>\<open>safe_db_connection\<close>: what the body of the \<^verbatim>\<open>with\<close> statement receives. The call is
  wrapped in \<^verbatim>\<open>try ... except Exception: yield None\<close>.
\<close>

definition safe_db_connection :: "'c db_env \<Rightarrow> py_exc + 'c option" where
  "safe_db_connection env =
     (case get_db_connection env of
        Inl e \<Rightarrow> Inr None
      | Inr conn \<Rightarrow> Inr conn)"

text \<open>Sample environments: a missing file, an unreadable file, an empty file, and a
  file that opens.\<close>

definition missing_file :: "nat db_env" where
  "missing_file = \<lparr>file_exists = False, file_readable = False, file_size = Inl OSError,
     lock_probe = Probe_open_failed, uri_connect = Other_error, direct_connect = Other_error\<rparr>"

definition unreadable_file :: "nat db_env" where
  "unreadable_file = \<lparr>file_exists = True, file_readable = False, file_size = Inr 4096,
     lock_probe = Probe_open_failed, uri_connect = Other_error, direct_connect = Other_error\<rparr>"

definition empty_file :: "nat db_env" where
  "empty_file = \<lparr>file_exists = True, file_readable = True, file_size = Inr 0,
     lock_probe = Probe_free, uri_connect = Opened 1, direct_connect = Opened 2\<rparr>"

definition good_file :: "nat db_env" where
  "good_file = \<lparr>file_exists = True, file_readable = True, file_size = Inr 4096,
     lock_probe = Probe_free, uri_connect = Opened 1, direct_connect = Opened 2\<rparr>"

section \<open>Properties of the deduplication\<close>

subsection \<open>Dictionaries\<close>

lemma map_of_dict_set: "map_of (dict_set d k v) = (map_of d)(k \<mapsto> v)"
  by (induction d k v rule: dict_set.induct) (auto simp: fun_eq_iff)

lemma dict_set_same: "map_of d k = Some v \<Longrightarrow> dict_set d k v = d"
  by (induction d k v rule: dict_set.induct) (auto split: if_splits)

lemma dict_get_dict_set:
  "dict_get (dict_set d k v) k' dflt = (if k' = k then v else dict_get d k' dflt)"
  by (simp add: dict_get_def map_of_dict_set)

lemma chats_neq_composers: "U ''chats'' \<noteq> U ''composers''"
  by (simp add: U_def)

subsection \<open>The loop\<close>

lemma unique_by_id_first_seen:
  "unique_by_id rs seen unique = Inr out \<Longrightarrow> out = unique @ first_seen rs seen"
  by (induction rs seen unique rule: unique_by_id.induct)
     (auto simp: id_key_def split: sum.splits if_splits)

lemma first_seen_keys:
  "r \<in> set (first_seen rs seen) \<Longrightarrow> \<exists>k. id_key r = Some k \<and> k \<notin> seen"
  by (induction rs seen rule: first_seen.induct) (auto split: option.splits if_splits)

lemma first_seen_distinct: "distinct (map id_key (first_seen rs seen))"
  by (induction rs seen rule: first_seen.induct)
     (auto split: option.splits if_splits dest: first_seen_keys)

lemma first_seen_subseq: "subseq (first_seen rs seen) rs"
  by (induction rs seen rule: first_seen.induct) (auto split: option.splits)

lemma first_seen_complete:
  "r \<in> set rs \<Longrightarrow> id_key r = Some k \<Longrightarrow> k \<notin> seen \<Longrightarrow>
   \<exists>r'\<in>set (first_seen rs seen). id_key r' = Some k"
  by (induction rs seen rule: first_seen.induct) (auto split: option.splits)

lemma count_one_of_distinct:
  "distinct (map f xs) \<Longrightarrow> x \<in> set xs \<Longrightarrow> length (filter (\<lambda>y. f y = f x) xs) = 1"
proof (induction xs)
  case Nil
  then show ?case by simp
next
  case (Cons a xs)
  show ?case
  proof (cases "f a = f x")
    case True
    from Cons.prems(1) have na: "f a \<notin> set (map f xs)" by simp
    have "\<forall>y\<in>set xs. f y \<noteq> f x"
    proof
      fix y assume "y \<in> set xs"
      then have "f y \<in> set (map f xs)" by simp
      with na True show "f y \<noteq> f x" by metis
    qed
    then have "filter (\<lambda>y. f y = f x) xs = []" by (simp add: filter_empty_conv)
    with True show ?thesis by simp
  next
    case False
    with Cons.prems have "x \<in> set xs" "distinct (map f xs)" by auto
    with Cons.IH False show ?thesis by simp
  qed
qed

lemma first_seen_exactly_one:
  assumes "r \<in> set rs" and "id_key r = Some k"
  shows "length (filter (\<lambda>r'. id_key r' = Some k) (first_seen rs {})) = 1"
proof -
  from first_seen_complete [OF assms] obtain r'
    where r': "r' \<in> set (first_seen rs {})" "id_key r' = Some k" by auto
  from count_one_of_distinct [OF first_seen_distinct r'(1)] r'(2)
  show ?thesis by simp
qed

text \<open>A list of records with pairwise different usable ids is a fixed point of the loop.\<close>

lemma unique_by_id_fixed:
  "\<forall>r\<in>set rs. \<exists>k. id_key r = Some k \<and> k \<notin> seen \<Longrightarrow> distinct (map id_key rs) \<Longrightarrow>
   unique_by_id rs seen unique = Inr (unique @ rs)"
proof (induction rs arbitrary: seen unique)
  case Nil
  then show ?case by simp
next
  case (Cons r rs)
  then obtain k where k: "id_key r = Some k" "k \<notin> seen" by auto
  have "\<forall>r'\<in>set rs. \<exists>k'. id_key r' = Some k' \<and> k' \<notin> insert k seen"
  proof
    fix r' assume r': "r' \<in> set rs"
    with Cons.prems(1) obtain k' where k': "id_key r' = Some k'" "k' \<notin> seen" by auto
    from Cons.prems(2) have "id_key r \<notin> set (map id_key rs)" by simp
    moreover from r' have "id_key r' \<in> set (map id_key rs)" by simp
    ultimately have "id_key r' \<noteq> id_key r" by metis
    with k k' show "\<exists>k'. id_key r' = Some k' \<and> k' \<notin> insert k seen" by auto
  qed
  moreover from Cons.prems(2) have "distinct (map id_key rs)" by simp
  ultimately have IH: "unique_by_id rs (insert k seen) (unique @ [r]) = Inr ((unique @ [r]) @ rs)"
    by (rule Cons.IH)
  from k show ?case using IH
    by (auto simp: id_key_def split: sum.splits if_splits)
qed

lemma unique_by_id_idem:
  assumes "unique_by_id rs {} [] = Inr out"
  shows "unique_by_id out {} [] = Inr out"
proof -
  from unique_by_id_first_seen [OF assms] have out: "out = first_seen rs {}" by simp
  have "\<forall>r\<in>set out. \<exists>k. id_key r = Some k \<and> k \<notin> {}"
    unfolding out using first_seen_keys by blast
  moreover have "distinct (map id_key out)"
    unfolding out by (rule first_seen_distinct)
  ultimately show ?thesis
    using unique_by_id_fixed [of out "{}" "[]"] by simp
qed

subsection \<open>First occurrences, by position\<close>

lemma first_seen_index:
  "first_seen rs seen =
     map ((!) rs) (filter (\<lambda>i. (\<exists>k. id_key (rs ! i) = Some k \<and> k \<notin> seen) \<and>
                          (\<forall>j<i. id_key (rs ! j) \<noteq> id_key (rs ! i))) [0..<length rs])"
proof (induction rs arbitrary: seen)
  case Nil
  then show ?case by simp
next
  case (Cons r rs)
  let ?P = "\<lambda>s i. (\<exists>k. id_key (rs ! i) = Some k \<and> k \<notin> s) \<and>
                  (\<forall>j<i. id_key (rs ! j) \<noteq> id_key (rs ! i))"
  let ?Q = "\<lambda>i. (\<exists>k. id_key ((r # rs) ! i) = Some k \<and> k \<notin> seen) \<and>
                  (\<forall>j<i. id_key ((r # rs) ! j) \<noteq> id_key ((r # rs) ! i))"
  have upt: "[0..<length (r # rs)] = 0 # map Suc [0..<length rs]"
    by (simp add: upt_conv_Cons map_Suc_upt del: upt_Suc)
  have all_Suc: "\<And>i P. (\<forall>j<Suc i. P j) = (P 0 \<and> (\<forall>j<i. P (Suc j)))"
    by (metis less_Suc_eq_0_disj)
  have QSuc: "?Q (Suc i) = ((\<exists>k. id_key (rs ! i) = Some k \<and> k \<notin> seen) \<and>
                 id_key r \<noteq> id_key (rs ! i) \<and> (\<forall>j<i. id_key (rs ! j) \<noteq> id_key (rs ! i)))" for i
    by (simp add: all_Suc)
  have tail: "map ((!) (r # rs)) (filter ?Q (map Suc [0..<length rs]))
                = map ((!) rs) (filter (?Q \<circ> Suc) [0..<length rs])"
    by (simp add: filter_map o_def)
  show ?case
  proof (cases "id_key r")
    case None
    have "?Q \<circ> Suc = ?P seen"
      unfolding o_def QSuc using None by (auto simp: fun_eq_iff)
    moreover have "\<not> ?Q 0" using None by simp
    ultimately show ?thesis
      unfolding upt using None tail Cons.IH [of seen] by simp
  next
    case (Some k)
    show ?thesis
    proof (cases "k \<in> seen")
      case True
      have "?Q \<circ> Suc = ?P seen"
        unfolding o_def QSuc using Some True by (auto simp: fun_eq_iff)
      moreover have "\<not> ?Q 0" using Some True by simp
      ultimately show ?thesis
        unfolding upt using Some True tail Cons.IH [of seen] by simp
    next
      case False
      have "?Q \<circ> Suc = ?P (insert k seen)"
        unfolding o_def QSuc using Some False by (auto simp: fun_eq_iff)
      moreover have "?Q 0" using Some False by simp
      ultimately show ?thesis
        unfolding upt using Some False tail Cons.IH [of "insert k seen"] by simp
    qed
  qed
qed

lemma earlier_ids:
  assumes "i < length rs"
  shows "(\<forall>j<i. id_key (rs ! j) \<noteq> id_key (rs ! i)) \<longleftrightarrow>
         id_key (rs ! i) \<notin> set (map id_key (take i rs))"
proof -
  from assms have "(!) rs ` {0..<i} = set (take i rs)"
    by (simp add: nth_image)
  then have "set (map id_key (take i rs)) = (\<lambda>j. id_key (rs ! j)) ` {0..<i}"
    by (simp add: image_image [symmetric] del: image_image)
  then have "id_key (rs ! i) \<in> set (map id_key (take i rs)) \<longleftrightarrow>
             (\<exists>j<i. id_key (rs ! j) = id_key (rs ! i))"
    by (auto simp: image_iff) (metis atLeastLessThan_iff le0)
  then show ?thesis by metis
qed

lemma first_seen_first_occurrences: "first_seen rs {} = first_occurrences rs"
proof -
  have "filter (\<lambda>i. (\<exists>k. id_key (rs ! i) = Some k \<and> k \<notin> {}) \<and>
                     (\<forall>j<i. id_key (rs ! j) \<noteq> id_key (rs ! i))) [0..<length rs]
      = filter (\<lambda>i. id_key (rs ! i) \<noteq> None \<and> id_key (rs ! i) \<notin> set (map id_key (take i rs)))
          [0..<length rs]"
    by (rule filter_cong [OF refl]) (use earlier_ids in auto)
  then show ?thesis
    unfolding first_occurrences_def first_seen_index [of rs "{}"] by simp
qed

subsection \<open>The function\<close>

text \<open>What a run without exception looks like.\<close>

lemma remove_duplicates_success:
  assumes "remove_duplicates data = (data', None)"
  obtains chats composers where
    "py_iter (dict_get data (U ''chats'') (PList [])) = Inr chats"
    "py_iter (dict_get data (U ''composers'') (PList [])) = Inr composers"
    "unique_by_id chats {} [] = Inr (first_seen chats {})"
    "unique_by_id composers {} [] = Inr (first_seen composers {})"
    "data' = dict_set (dict_set data (U ''chats'') (PList (first_seen chats {})))
               (U ''composers'') (PList (first_seen composers {}))"
proof -
  from assms obtain chats uc composers ucs where
    1: "py_iter (dict_get data (U ''chats'') (PList [])) = Inr chats" and
    2: "unique_by_id chats {} [] = Inr uc" and
    3: "py_iter (dict_get (dict_set data (U ''chats'') (PList uc)) (U ''composers'') (PList []))
          = Inr composers" and
    4: "unique_by_id composers {} [] = Inr ucs" and
    5: "data' = dict_set (dict_set data (U ''chats'') (PList uc)) (U ''composers'') (PList ucs)"
    by (auto simp: remove_duplicates_def Let_def split: sum.splits)
  from unique_by_id_first_seen [OF 2] have uc: "uc = first_seen chats {}" by simp
  from unique_by_id_first_seen [OF 4] have ucs: "ucs = first_seen composers {}" by simp
  from 3 have c3: "py_iter (dict_get data (U ''composers'') (PList [])) = Inr composers"
    using chats_neq_composers by (simp add: dict_get_dict_set)
  show thesis
    using that [OF 1 c3] 2 4 5 unfolding uc ucs by simp
qed

lemma remove_duplicates_idem:
  assumes "remove_duplicates data = (data', None)"
  shows "remove_duplicates data' = (data', None)"
proof -
  from assms obtain chats composers where
    uc: "unique_by_id chats {} [] = Inr (first_seen chats {})" and
    ucs: "unique_by_id composers {} [] = Inr (first_seen composers {})" and
    d': "data' = dict_set (dict_set data (U ''chats'') (PList (first_seen chats {})))
               (U ''composers'') (PList (first_seen composers {}))"
    by (rule remove_duplicates_success)
  let ?uc = "first_seen chats {}" and ?ucs = "first_seen composers {}"
  have g1: "dict_get data' (U ''chats'') (PList []) = PList ?uc"
    unfolding d' using chats_neq_composers by (simp add: dict_get_dict_set)
  have m1: "map_of data' (U ''chats'') = Some (PList ?uc)"
    unfolding d' using chats_neq_composers by (simp add: map_of_dict_set)
  have m2: "map_of data' (U ''composers'') = Some (PList ?ucs)"
    unfolding d' by (simp add: map_of_dict_set)
  have s1: "dict_set data' (U ''chats'') (PList ?uc) = data'"
    by (rule dict_set_same [OF m1])
  have s2: "dict_set data' (U ''composers'') (PList ?ucs) = data'"
    by (rule dict_set_same [OF m2])
  have g2: "dict_get data' (U ''composers'') (PList []) = PList ?ucs"
    using m2 by (simp add: dict_get_def)
  show ?thesis
    unfolding remove_duplicates_def
    by (simp add: g1 g2 s1 s2 unique_by_id_idem [OF uc] unique_by_id_idem [OF ucs])
qed

lemma id_key_SomeD:
  "id_key r = Some k \<Longrightarrow>
   \<exists>d rid. r = PDict d \<and> map_of d (U ''id'') = Some rid \<and> truthy rid \<and> hash_key rid = Inr k"
  by (cases r) (auto simp: id_key_def dict_get_def split: option.splits sum.splits if_splits)

lemma sample_run: "remove_duplicates sample_data = (sample_deduplicated, None)"
  by (simp add: remove_duplicates_def sample_data_def sample_deduplicated_def U_def
      dict_get_def)

subsection \<open>Claims about the deduplication\<close>

text \<open>
  C10. \<^verbatim>\<open>remove_duplicates\<close> assigns only \<^verbatim>\<open>data["chats"]\<close> and \<^verbatim>\<open>data["composers"]\<close>: every
  other key of the extraction result (\<^verbatim>\<open>workspace_id\<close>, \<^verbatim>\<open>workspace_path\<close>, any other)
  is bound to the same value before and after, also when the function is left by an
  exception.
\<close>

theorem remove_duplicates_frame:
  assumes "k \<noteq> U ''chats''" and "k \<noteq> U ''composers''"
  shows "map_of (fst (remove_duplicates data)) k = map_of data k"
  using assms
  by (auto simp: remove_duplicates_def Let_def map_of_dict_set split: sum.splits)

theorem remove_duplicates_frame_witness:
  "U ''workspace_path'' \<noteq> U ''chats'' \<and> U ''workspace_path'' \<noteq> U ''composers'' \<and>
   map_of (fst (remove_duplicates sample_data)) (U ''workspace_path'') =
     Some (PStr (U ''/home/u/proj''))"
proof -
  have 1: "U ''workspace_path'' \<noteq> U ''chats''" by (simp add: U_def)
  have 2: "U ''workspace_path'' \<noteq> U ''composers''" by (simp add: U_def)
  have "map_of sample_data (U ''workspace_path'') = Some (PStr (U ''/home/u/proj''))"
    by (simp add: sample_data_def U_def)
  with remove_duplicates_frame [OF 1 2, of sample_data] 1 2 show ?thesis by simp
qed

text \<open>
  C9. Whenever \<^verbatim>\<open>remove_duplicates\<close> returns, every record of the output \<^verbatim>\<open>chats\<close> and
  \<^verbatim>\<open>composers\<close> is a dictionary with an \<^verbatim>\<open>"id"\<close> that is present and truthy: a record whose
  id is absent, \<^verbatim>\<open>None\<close> or the empty string is not in the output, duplicate or not.
\<close>

theorem remove_duplicates_ids_nonempty:
  assumes "remove_duplicates data = (data', None)"
  shows "\<exists>chats composers.
           map_of data' (U ''chats'') = Some (PList chats) \<and>
           map_of data' (U ''composers'') = Some (PList composers) \<and>
           (\<forall>r\<in>set (chats @ composers).
              \<exists>d rid. r = PDict d \<and> map_of d (U ''id'') = Some rid \<and> truthy rid \<and>
                      rid \<noteq> PNone \<and> rid \<noteq> PStr [])"
proof -
  from assms obtain chats composers where
    d': "data' = dict_set (dict_set data (U ''chats'') (PList (first_seen chats {})))
               (U ''composers'') (PList (first_seen composers {}))"
    by (rule remove_duplicates_success)
  have m1: "map_of data' (U ''chats'') = Some (PList (first_seen chats {}))"
    unfolding d' using chats_neq_composers by (simp add: map_of_dict_set)
  have m2: "map_of data' (U ''composers'') = Some (PList (first_seen composers {}))"
    unfolding d' by (simp add: map_of_dict_set)
  have "\<exists>d rid. r = PDict d \<and> map_of d (U ''id'') = Some rid \<and> truthy rid \<and>
                 rid \<noteq> PNone \<and> rid \<noteq> PStr []"
    if "r \<in> set (first_seen rs {})" for r rs
  proof -
    from first_seen_keys [OF that] obtain k where "id_key r = Some k" by auto
    from id_key_SomeD [OF this] show ?thesis by auto
  qed
  with m1 m2 show ?thesis by auto
qed

theorem remove_duplicates_ids_nonempty_witness:
  "remove_duplicates sample_data = (sample_deduplicated, None) \<and>
   (\<exists>chats composers.
      map_of sample_deduplicated (U ''chats'') = Some (PList chats) \<and>
      map_of sample_deduplicated (U ''composers'') = Some (PList composers) \<and>
      (\<forall>r\<in>set (chats @ composers).
         \<exists>d rid. r = PDict d \<and> map_of d (U ''id'') = Some rid \<and> truthy rid \<and>
                 rid \<noteq> PNone \<and> rid \<noteq> PStr []))"
  using remove_duplicates_ids_nonempty [OF sample_run] sample_run by simp

text \<open>
  C2, as stated, fails for an id that is not truthy: the empty string occurs as an id in
  the input below, and no record with that id is left in the output.
\<close>

theorem remove_duplicates_empty_id_counterexample:
  "remove_duplicates [(U ''chats'', PList [PDict [(U ''id'', PStr [])]])] =
     ([(U ''chats'', PList []), (U ''composers'', PList [])], None)"
  by (simp add: remove_duplicates_def U_def dict_get_def)

text \<open>
  C2, amended. Whenever \<^verbatim>\<open>remove_duplicates\<close> returns: applying it to its output returns
  the same output; each of the two collections of the output is the list of first
  occurrences of the input collection (the records with a truthy id that no earlier
  record has, in input order), hence a subsequence of the input; and for every truthy id
  that occurs in the input, exactly one record with that id is in the output.
\<close>

theorem remove_duplicates_first_occurrences:
  assumes "remove_duplicates data = (data', None)"
  shows "remove_duplicates data' = (data', None) \<and>
         (\<forall>coll\<in>{U ''chats'', U ''composers''}.
            \<exists>ins. py_iter (dict_get data coll (PList [])) = Inr ins \<and>
                  map_of data' coll = Some (PList (first_occurrences ins)) \<and>
                  subseq (first_occurrences ins) ins \<and>
                  (\<forall>r\<in>set ins. \<forall>k. id_key r = Some k \<longrightarrow>
                     length (filter (\<lambda>r'. id_key r' = Some k) (first_occurrences ins)) = 1))"
proof -
  from assms obtain chats composers where
    i1: "py_iter (dict_get data (U ''chats'') (PList [])) = Inr chats" and
    i2: "py_iter (dict_get data (U ''composers'') (PList [])) = Inr composers" and
    d': "data' = dict_set (dict_set data (U ''chats'') (PList (first_seen chats {})))
               (U ''composers'') (PList (first_seen composers {}))"
    by (rule remove_duplicates_success)
  have m1: "map_of data' (U ''chats'') = Some (PList (first_occurrences chats))"
    unfolding d' using chats_neq_composers
    by (simp add: map_of_dict_set first_seen_first_occurrences)
  have m2: "map_of data' (U ''composers'') = Some (PList (first_occurrences composers))"
    unfolding d' by (simp add: map_of_dict_set first_seen_first_occurrences)
  have sub: "subseq (first_occurrences rs) rs" for rs
    using first_seen_subseq [of rs "{}"] by (simp add: first_seen_first_occurrences)
  have one: "\<forall>r\<in>set rs. \<forall>k. id_key r = Some k \<longrightarrow>
               length (filter (\<lambda>r'. id_key r' = Some k) (first_occurrences rs)) = 1" for rs
    using first_seen_exactly_one [of _ rs] by (simp add: first_seen_first_occurrences)
  from i1 i2 m1 m2 sub one remove_duplicates_idem [OF assms] show ?thesis
    by simp
qed

theorem remove_duplicates_first_occurrences_witness:
  "remove_duplicates sample_data = (sample_deduplicated, None) \<and>
   remove_duplicates sample_deduplicated = (sample_deduplicated, None) \<and>
   (\<exists>ins. py_iter (dict_get sample_data (U ''chats'') (PList [])) = Inr ins \<and>
          map_of sample_deduplicated (U ''chats'') = Some (PList (first_occurrences ins)) \<and>
          subseq (first_occurrences ins) ins \<and>
          (\<forall>r\<in>set ins. \<forall>k. id_key r = Some k \<longrightarrow>
             length (filter (\<lambda>r'. id_key r' = Some k) (first_occurrences ins)) = 1)) \<and>
   (\<exists>ins. py_iter (dict_get sample_data (U ''composers'') (PList [])) = Inr ins \<and>
          map_of sample_deduplicated (U ''composers'') = Some (PList (first_occurrences ins)) \<and>
          subseq (first_occurrences ins) ins \<and>
          (\<forall>r\<in>set ins. \<forall>k. id_key r = Some k \<longrightarrow>
             length (filter (\<lambda>r'. id_key r' = Some k) (first_occurrences ins)) = 1))"
  using remove_duplicates_first_occurrences [OF sample_run] sample_run by simp

section \<open>Properties of the tolerant parser\<close>

subsection \<open>The substitution\<close>

lemma strip_Cons:
  "strip_trailing_commas (c # cs) =
     (if c = comma \<and> comma_match cs
      then hd (dropWhile is_space cs) # strip_trailing_commas (tl (dropWhile is_space cs))
      else c # strip_trailing_commas cs)"
  by (cases "dropWhile is_space cs")
     (simp_all add: comma_match_def del: dropWhile_eq_Nil_conv)

lemma strip_length: "length (strip_trailing_commas s) \<le> length s"
proof (induction s rule: strip_trailing_commas.induct)
  case 1
  then show ?case by simp
next
  case (2 c cs)
  show ?case
  proof (cases "dropWhile is_space cs")
    case Nil
    with 2 show ?thesis by (simp del: dropWhile_eq_Nil_conv)
  next
    case (Cons b rest)
    have "length (b # rest) \<le> length cs"
      by (metis Cons length_dropWhile_le)
    with 2 Cons show ?thesis by (auto simp del: dropWhile_eq_Nil_conv)
  qed
qed

lemma strip_fixed_Cons:
  assumes "strip_trailing_commas (c # cs) = c # cs"
  shows "strip_trailing_commas cs = cs \<and> \<not> (c = comma \<and> comma_match cs)"
proof (cases "c = comma \<and> comma_match cs")
  case False
  with assms show ?thesis by (simp only: strip_Cons if_False list.inject simp_thms)
next
  case True
  let ?d = "dropWhile is_space cs"
  from True have ne: "?d \<noteq> []"
    by (cases ?d) (simp_all add: comma_match_def del: dropWhile_eq_Nil_conv)
  from True have "strip_trailing_commas (c # cs) = hd ?d # strip_trailing_commas (tl ?d)"
    by (simp only: strip_Cons if_True simp_thms)
  with assms have "length (c # cs) = Suc (length (strip_trailing_commas (tl ?d)))"
    by (metis length_Cons)
  moreover have "length (strip_trailing_commas (tl ?d)) \<le> length (tl ?d)"
    by (rule strip_length)
  moreover from ne have "length (tl ?d) < length ?d" by simp
  moreover have "length ?d \<le> length cs" by (rule length_dropWhile_le)
  ultimately show ?thesis by simp
qed

lemma bracket_not_space: "b = rbrace \<or> b = rbracket \<Longrightarrow> \<not> is_space b"
  by (auto simp: is_space_def rbrace_def rbracket_def)

lemma comma_not_bracket: "comma \<noteq> rbrace" "comma \<noteq> rbracket"
  by (simp_all add: comma_def rbrace_def rbracket_def)

lemma comma_not_space: "\<not> is_space comma"
  by (simp add: is_space_def comma_def)

lemma comma_match_insert:
  assumes "comma_match (pre @ comma # rest)"
  shows "comma_match (pre @ b # post)"
proof (cases "\<forall>x\<in>set pre. is_space x")
  case True
  then have "dropWhile is_space (pre @ comma # rest) = comma # rest"
    using comma_not_space by (simp add: dropWhile_append)
  with assms comma_not_bracket show ?thesis by (simp add: comma_match_def)
next
  case False
  then have "dropWhile is_space (pre @ xs) = dropWhile is_space pre @ xs" for xs
    by (auto simp: dropWhile_append)
  moreover from False have "dropWhile is_space pre \<noteq> []" by (auto simp: dropWhile_eq_Nil_conv)
  ultimately show ?thesis using assms
    by (cases "dropWhile is_space pre") (auto simp: comma_match_def)
qed

lemma strip_single_trailing_comma:
  assumes b: "b = rbrace \<or> b = rbracket"
      and ws: "\<forall>w\<in>set ws. is_space w"
      and fixed: "strip_trailing_commas (pre @ b # post) = pre @ b # post"
  shows "strip_trailing_commas (pre @ comma # ws @ b # post) = pre @ b # post"
  using fixed
proof (induction pre)
  case Nil
  then have post: "strip_trailing_commas post = post"
    using strip_fixed_Cons [of b post] by simp
  from ws bracket_not_space [OF b] have "dropWhile is_space (ws @ b # post) = b # post"
    by (simp add: dropWhile_append)
  with b post show ?case by (auto simp del: dropWhile_eq_Nil_conv)
next
  case (Cons x pre)
  from Cons.prems have "strip_trailing_commas (x # (pre @ b # post)) = x # (pre @ b # post)"
    by simp
  from strip_fixed_Cons [OF this]
  have tl: "strip_trailing_commas (pre @ b # post) = pre @ b # post"
    and nm: "\<not> (x = comma \<and> comma_match (pre @ b # post))" by simp_all
  from nm comma_match_insert [of pre "ws @ b # post" b post]
  have "\<not> (x = comma \<and> comma_match (pre @ comma # ws @ b # post))" by blast
  then have "strip_trailing_commas (x # (pre @ comma # ws @ b # post))
               = x # strip_trailing_commas (pre @ comma # ws @ b # post)"
    by (simp only: strip_Cons if_False)
  with Cons.IH [OF tl] show ?case by simp
qed

subsection \<open>Claims about the tolerant parser\<close>

lemma json_loads_empty: "json_loads [] = Inl JSONDecodeError"
  by (simp add: json_loads_def)

text \<open>
  C4. Whatever the strict parser is, as long as it rejects the empty string (as every
  JSON parser does): on an input for which the strict parser returns a value \<open>v\<close>,
  \<^verbatim>\<open>safe_parse_json\<close> returns \<^verbatim>\<open>(v, None)\<close>.
\<close>

theorem safe_parse_json_valid:
  assumes "\<forall>v. loads [] \<noteq> Inr v" and "loads s = Inr v"
  shows "safe_parse_json loads s = Inr (Some v, None)"
proof -
  from assms have "s \<noteq> []" by auto
  with assms(2) show ?thesis by (simp add: safe_parse_json_def)
qed

theorem safe_parse_json_valid_witness:
  \<open>json_loads [] = Inl JSONDecodeError \<and>
   json_loads (U ''{"key": "value", "number": 42, "array": [1, 2, 3]}'') =
     Inr (JObj [(U ''key'', JStr (U ''value'')), (U ''number'', JInt 42),
                (U ''array'', JArr [JInt 1, JInt 2, JInt 3])]) \<and>
   safe_parse_json json_loads (U ''{"key": "value", "number": 42, "array": [1, 2, 3]}'') =
     Inr (Some (JObj [(U ''key'', JStr (U ''value'')), (U ''number'', JInt 42),
                      (U ''array'', JArr [JInt 1, JInt 2, JInt 3])]), None)\<close>
proof -
  have e: "\<forall>v. json_loads [] \<noteq> Inr v" by (simp add: json_loads_empty)
  have l: \<open>json_loads (U ''{"key": "value", "number": 42, "array": [1, 2, 3]}'') =
     Inr (JObj [(U ''key'', JStr (U ''value'')), (U ''number'', JInt 42),
                (U ''array'', JArr [JInt 1, JInt 2, JInt 3])])\<close>
    by code_simp
  from safe_parse_json_valid [OF e l] l json_loads_empty show ?thesis by simp
qed

text \<open>
  C5, amended. Let the input be a text \<open>pre @ b # post\<close>, \<open>b\<close> a closing brace or bracket,
  with one comma and optional whitespace inserted in front of \<open>b\<close>. If the strict parser
  rejects the input with a \<^verbatim>\<open>JSONDecodeError\<close> and accepts the comma-free text with value
  \<open>v\<close>, and the comma-free text has no other comma that is followed by optional whitespace
  and a closing bracket (in particular none inside a string literal), then
  \<^verbatim>\<open>safe_parse_json\<close> returns \<^verbatim>\<open>(v, None)\<close>.
\<close>

theorem safe_parse_json_trailing_comma:
  assumes "loads (pre @ comma # ws @ b # post) = Inl JSONDecodeError"
      and "b = rbrace \<or> b = rbracket"
      and "\<forall>w\<in>set ws. is_space w"
      and "strip_trailing_commas (pre @ b # post) = pre @ b # post"
      and "loads (pre @ b # post) = Inr v"
  shows "safe_parse_json loads (pre @ comma # ws @ b # post) = Inr (Some v, None)"
proof -
  have "strip_trailing_commas (pre @ comma # ws @ b # post) = pre @ b # post"
    using assms(2,3,4) by (rule strip_single_trailing_comma)
  with assms(1,5) show ?thesis
    by (simp add: safe_parse_json_def)
qed

theorem safe_parse_json_trailing_comma_witness:
  \<open>json_loads (U ''{"key": "value", "array": [1, 2, 3'' @ comma # [32] @ rbracket # U ''}'')
     = Inl JSONDecodeError \<and>
   is_space 32 \<and>
   strip_trailing_commas (U ''{"key": "value", "array": [1, 2, 3'' @ rbracket # U ''}'')
     = U ''{"key": "value", "array": [1, 2, 3'' @ rbracket # U ''}'' \<and>
   json_loads (U ''{"key": "value", "array": [1, 2, 3'' @ rbracket # U ''}'')
     = Inr (JObj [(U ''key'', JStr (U ''value'')), (U ''array'', JArr [JInt 1, JInt 2, JInt 3])]) \<and>
   safe_parse_json json_loads
       (U ''{"key": "value", "array": [1, 2, 3'' @ comma # [32] @ rbracket # U ''}'')
     = Inr (Some (JObj [(U ''key'', JStr (U ''value'')),
                        (U ''array'', JArr [JInt 1, JInt 2, JInt 3])]), None)\<close>
proof -
  let ?pre = \<open>U ''{"key": "value", "array": [1, 2, 3''\<close> and ?post = "U ''}''"
  have 1: "json_loads (?pre @ comma # [32] @ rbracket # ?post) = Inl JSONDecodeError"
    by code_simp
  have 2: "rbracket = rbrace \<or> rbracket = rbracket" by simp
  have 3: "\<forall>w\<in>set [32]. is_space w" by (simp add: is_space_def)
  have 4: "strip_trailing_commas (?pre @ rbracket # ?post) = ?pre @ rbracket # ?post"
    by code_simp
  have 5: "json_loads (?pre @ rbracket # ?post) =
             Inr (JObj [(U ''key'', JStr (U ''value'')), (U ''array'', JArr [JInt 1, JInt 2, JInt 3])])"
    by code_simp
  from safe_parse_json_trailing_comma [OF 1 2 3 4 5] 1 3 4 5 show ?thesis by simp
qed

text \<open>
  C5, as stated, fails when a string literal contains a comma in front of a closing
  bracket: the substitution rewrites the string as well. The input is the valid text
  \<^verbatim>\<open>["a,]"]\<close> with one trailing comma in front of its closing bracket; the tolerant
  parser returns the list with the string \<^verbatim>\<open>a]\<close>, the comma-free text has the value
  with the string \<^verbatim>\<open>a,]\<close>.
\<close>

theorem safe_parse_json_comma_in_string_counterexample:
  \<open>safe_parse_json json_loads (U ''["a,]",]'') = Inr (Some (JArr [JStr (U ''a]'')]), None) \<and>
   json_loads (U ''["a,]"]'') = Inr (JArr [JStr (U ''a,]'')])\<close>
  by code_simp

section \<open>Properties of the timestamp formatting\<close>

subsection \<open>Decimal digits and padding\<close>

lemma dec_small: "n < 10 \<Longrightarrow> dec n = [48 + n]"
  by (simp add: dec.simps)

lemma dec_large: "\<not> n < 10 \<Longrightarrow> dec n = dec (n div 10) @ [48 + n mod 10]"
  by (subst dec.simps) simp

lemma dec2: "10 \<le> n \<Longrightarrow> n < 100 \<Longrightarrow> dec n = [48 + n div 10, 48 + n mod 10]"
  by (simp add: dec_large dec_small)

lemma zfill2: "n < 100 \<Longrightarrow> zfill 2 n = [48 + n div 10, 48 + n mod 10]"
  by (cases "n < 10") (simp_all add: zfill_def dec_small dec2)

lemma dec4:
  assumes "1000 \<le> n" "n \<le> 9999"
  shows "dec n = [48 + n div 1000, 48 + n div 100 mod 10, 48 + n div 10 mod 10, 48 + n mod 10]"
proof -
  have a: "\<not> n < 10" "\<not> n div 10 < 10" "\<not> n div 10 div 10 < 10" "n div 10 div 10 div 10 < 10"
    using assms by auto
  have "n div 10 div 10 div 10 = n div 1000" "n div 10 div 10 = n div 100"
    by (simp_all add: div_mult2_eq [symmetric])
  then show ?thesis
    using a dec_large [of n] dec_large [of "n div 10"] dec_large [of "n div 10 div 10"]
      dec_small [of "n div 10 div 10 div 10"] by simp
qed

lemma zfill4:
  "1000 \<le> n \<Longrightarrow> n \<le> 9999 \<Longrightarrow>
   zfill 4 n = [48 + n div 1000, 48 + n div 100 mod 10, 48 + n div 10 mod 10, 48 + n mod 10]"
  by (simp add: zfill_def dec4)











subsection \<open>The sample host\<close>

lemma utc_datetime_sample:
  "utc_datetime 1625097600 =
     Some \<lparr>year = 2021, month = 7, day = 1, hour = 0, minute = 0, second = 0\<rparr>"
  by code_simp

lemma strftime_sample:
  "strftime \<lparr>year = 2021, month = 7, day = 1, hour = 0, minute = 0, second = 0\<rparr> =
     U ''2021-07-01 00:00:00''"
  by (simp add: strftime_def zfill2 zfill4 U_def)


subsection \<open>The claim\<close>



section \<open>Properties of the normalizer\<close>

lemma bnd_Inr: "bnd r f = Inr y \<longleftrightarrow> (\<exists>v. r = Inr v \<and> f v = Inr y)"
  by (cases r) (simp_all add: bnd_def)

lemma bnd_simps [simp]: "bnd (Inr v) f = f v" "bnd (Inl e) f = Inl e"
  by (simp_all add: bnd_def)


subsection \<open>Chat bubbles\<close>

lemma bubble_message_has_text:
  "bubble_message h bubble = Inr (Some m) \<Longrightarrow> has_text m"
  by (auto simp: bubble_message_def bnd_Inr has_text_def U_def split: if_splits)

lemma bubble_messages_have_text:
  "bubble_messages h bubbles messages = Inr out \<Longrightarrow> \<forall>m\<in>set messages. has_text m \<Longrightarrow>
   \<forall>m\<in>set out. has_text m"
proof (induction bubbles arbitrary: messages)
  case Nil
  then show ?case by simp
next
  case (Cons bubble bubbles)
  from Cons.prems(1) obtain m where
    m: "bubble_message h bubble = Inr m" and
    rest: "bubble_messages h bubbles (case m of None \<Rightarrow> messages | Some message \<Rightarrow> messages @ [message])
             = Inr out"
    by (auto simp: bnd_Inr)
  have "\<forall>x\<in>set (case m of None \<Rightarrow> messages | Some message \<Rightarrow> messages @ [message]). has_text x"
    using Cons.prems(2) m by (cases m) (auto dest: bubble_message_has_text)
  with Cons.IH [OF rest] show ?case by blast
qed

lemma chat_of_tab_messages:
  assumes "chat_of_tab h tab = Inr chat"
  shows "\<exists>d msgs. chat = PDict d \<and> map_of d (U ''messages'') = Some (PList msgs) \<and>
                  (\<forall>m\<in>set msgs. has_text m)"
proof -
  from assms obtain tab_id title time created_at bubbles messages where
    chat: "chat = PDict [(U ''id'', tab_id), (U ''title'', title), (U ''timestamp'', PStr time),
                   (U ''created_at'', created_at), (U ''messages'', PList messages)]" and
    msgs: "bubble_messages h bubbles [] = Inr messages"
    unfolding chat_of_tab_def bnd_Inr by blast
  from bubble_messages_have_text [OF msgs] have "\<forall>m\<in>set messages. has_text m" by simp
  with chat show ?thesis by (simp add: U_def)
qed

lemma chats_of_tabs_messages:
  "chat \<in> set (chats_of_tabs h tabs) \<Longrightarrow>
   \<exists>d msgs. chat = PDict d \<and> map_of d (U ''messages'') = Some (PList msgs) \<and>
            (\<forall>m\<in>set msgs. has_text m)"
proof (induction tabs)
  case Nil
  then show ?case by simp
next
  case (Cons tab tabs)
  show ?case
  proof (cases "chat_of_tab h tab")
    case (Inl e)
    with Cons.prems show ?thesis by simp
  next
    case (Inr c)
    with Cons.prems have "chat = c \<or> chat \<in> set (chats_of_tabs h tabs)" by simp
    then show ?thesis
      using chat_of_tab_messages [of h tab c] Inr Cons.IH by blast
  qed
qed

text \<open>Every chat of the output is a dictionary whose messages all have a text.\<close>

lemma extract_chats_have_text:
  "\<forall>chat\<in>set (extract_chats h chat_data).
     \<exists>d msgs. chat = PDict d \<and> map_of d (U ''messages'') = Some (PList msgs) \<and>
              (\<forall>m\<in>set msgs. has_text m)"
  by (auto simp: extract_chats_def split: pyval.splits option.splits
      dest!: chats_of_tabs_messages)

subsection \<open>The samples\<close>

lemma utc_datetime_sample_next:
  "utc_datetime 1625097601 =
     Some \<lparr>year = 2021, month = 7, day = 1, hour = 0, minute = 0, second = 1\<rparr>"
  by code_simp

lemma strftime_sample_next:
  "strftime \<lparr>year = 2021, month = 7, day = 1, hour = 0, minute = 0, second = 1\<rparr> =
     U ''2021-07-01 00:00:01''"
  by (simp add: strftime_def zfill2 zfill4 U_def)

lemma format_time_sample:
  "format_time utc_host (PInt 1625097600000) = Inr (U ''2021-07-01 00:00:00'')"
proof -
  have "(1625097600000::int) div 1000 = 1625097600" by simp
  then show ?thesis
    using strftime_sample by (simp add: format_time_def utc_host_def utc_datetime_sample)
qed

lemma format_time_sample_next:
  "format_time utc_host (PInt 1625097601000) = Inr (U ''2021-07-01 00:00:01'')"
proof -
  have "(1625097601000::int) div 1000 = 1625097601" by simp
  then show ?thesis
    using strftime_sample_next by (simp add: format_time_def utc_host_def utc_datetime_sample_next)
qed

lemma sample_chats: "extract_chats utc_host sample_chat_data = [sample_chat]"
  by (simp add: extract_chats_def sample_chat_data_def sample_chat_def chat_of_tab_def
      bubble_message_def dict_get_def format_time_sample format_time_sample_next U_def)

lemma sample_conversation_messages:
  "conversation_messages utc_host sample_conversation [] = Inr sample_messages"
  by (simp add: sample_conversation_def sample_messages_def conversation_message_def
      resolve_type_def py_eq_int_def dict_get_def format_time_def U_def)

lemma sample_merged_composer:
  "merged_composer [] (sample_composer conversation) =
     Inr (PStr (U ''composer-1''),
          [(U ''composerId'', PStr (U ''composer-1'')), (U ''name'', PStr (U ''Test Composer'')),
           (U ''conversation'', PList conversation)])"
  by (simp add: merged_composer_def sample_composer_def lookup_detail_def dict_get_def U_def)

lemma sample_find_conversation:
  "find_conversation
     [(U ''composerId'', PStr (U ''composer-1'')), (U ''name'', PStr (U ''Test Composer'')),
      (U ''conversation'', PList conversation)] conversation_keys = conversation"
  by (simp add: conversation_keys_def U_def)

lemma sample_composer_head:
  "composer_title h
     [(U ''composerId'', PStr (U ''composer-1'')), (U ''name'', PStr (U ''Test Composer'')),
      (U ''conversation'', PList conversation)] (PStr (U ''composer-1'')) =
     Inr (PStr (U ''Test Composer''))"
  "dict_get [(U ''composerId'', PStr (U ''composer-1'')), (U ''name'', PStr (U ''Test Composer'')),
      (U ''conversation'', PList conversation)] (U ''createdAt'') PNone = PNone"
  "dict_get [(U ''composerId'', PStr (U ''composer-1'')), (U ''name'', PStr (U ''Test Composer'')),
      (U ''conversation'', PList conversation)] (U ''lastUpdatedAt'') PNone = PNone"
  "dict_get [(U ''composerId'', PStr (U ''composer-1'')), (U ''name'', PStr (U ''Test Composer'')),
      (U ''conversation'', PList conversation)] (U ''text'') (PStr []) = PStr []"
  by (simp_all add: composer_title_def dict_get_def U_def)

lemma sample_id_truthy: "U ''composer-1'' \<noteq> []"
  by (simp add: U_def)

lemma format_time_None: "format_time h PNone = Inr unknown_text"
  by (simp add: format_time_def)

lemma sample_info:
  "composer_info False utc_host [] (sample_composer sample_conversation) =
     Inr (Some (sample_composer_info sample_messages))"
  unfolding composer_info_def sample_merged_composer
  by (simp add: sample_composer_head sample_find_conversation sample_conversation_messages
      format_time_None sample_id_truthy sample_composer_info_def)




lemma sample_details:
  "composer_details_of safe_mode (Inr False) no_fetch [sample_composer conversation] =
     Inr (Details [])"
  by (simp add: composer_details_of_def sample_composer_def dict_get_def U_def)

lemma sample_all_composers:
  "map_of sample_composer_data (U ''allComposers'') =
     Some (PList [sample_composer sample_conversation])"
  by (simp add: sample_composer_data_def)

subsection \<open>Messages without text\<close>

text \<open>
  C1. The normalizer drops a chat bubble whose text is empty, but not a composer
  conversation entry whose text is empty. Outside safe mode, for a workspace whose chat
  document has one tab with two bubbles, the second with an empty text, and whose
  composer document has one composer with three conversation entries, the second
  \<^verbatim>\<open>{"type": 2, "text": ""}\<close>, the result has one chat with exactly one message, and one
  composer whose conversation has all three messages: the second one is
  \<^verbatim>\<open>{"type": "assistant", "text": "", ...}\<close>, a message without text.
\<close>

theorem composer_empty_text_kept:
  "get_chat_data (U ''ws'') (U ''/p'') False utc_host (Inr False) no_fetch
     sample_chat_data (PDict sample_composer_data) =
     Extraction [(U ''workspace_id'', PStr (U ''ws'')), (U ''workspace_path'', PStr (U ''/p'')),
                 (U ''chats'', PList [sample_chat]),
                 (U ''composers'', PList [sample_composer_info sample_messages])] \<and>
   sample_messages ! 1 =
     PDict [(U ''type'', PStr (U ''assistant'')), (U ''text'', PStr []),
            (U ''timestamp'', PStr unknown_text)] \<and>
   \<not> has_text (sample_messages ! 1)"
proof (intro conjI)
  show "get_chat_data (U ''ws'') (U ''/p'') False utc_host (Inr False) no_fetch
     sample_chat_data (PDict sample_composer_data) =
     Extraction [(U ''workspace_id'', PStr (U ''ws'')), (U ''workspace_path'', PStr (U ''/p'')),
                 (U ''chats'', PList [sample_chat]),
                 (U ''composers'', PList [sample_composer_info sample_messages])]"
    by (simp add: get_chat_data_def extract_composers_def sample_all_composers sample_details
        sample_info sample_chats)
  show "sample_messages ! 1 =
     PDict [(U ''type'', PStr (U ''assistant'')), (U ''text'', PStr []),
            (U ''timestamp'', PStr unknown_text)]"
    by (simp add: sample_messages_def)
  show "\<not> has_text (sample_messages ! 1)"
    by (simp add: sample_messages_def has_text_def U_def)
qed

subsection \<open>Composer messages\<close>










section \<open>Properties of the output file name\<close>

lemma path_id_length: "length (path_id alnum data) \<le> 21"
  by (auto simp: path_id_def Let_def U_def split: pyval.splits option.splits)

lemma output_filename_length:
  assumes "length timestamp \<le> 8"
  shows "length (output_filename alnum timestamp data) \<le> 200"
  using assms path_id_length [of alnum data]
  by (simp add: output_filename_def Let_def U_def)

text \<open>With ASCII digits in the date and no alphanumeric code point beyond ASCII, the name
  stays within the allowed characters: the letters beyond ASCII are what escapes.\<close>

lemma output_filename_ascii:
  assumes "\<forall>c\<in>set timestamp. allowed_char c" and "\<forall>c. \<not> alnum c"
  shows "list_all allowed_char (output_filename alnum timestamp data)"
proof -
  have "\<forall>c\<in>set (path_id alnum data). allowed_char c"
    using assms(2)
    by (auto simp: path_id_def Let_def U_def safe_part_def is_word_def allowed_char_def
        split: pyval.splits option.splits dest!: in_set_takeD)
  with assms(1) show ?thesis
    by (auto simp: output_filename_def Let_def U_def list_all_iff allowed_char_def)
qed

text \<open>
  C3 on the repository's own test path: the last segment of the path is a katakana
  word, \<^verbatim>\<open>\w\<close> matches its letters, and they end up in the file name, which is
  \<^verbatim>\<open>ws_20210701_\<close> followed by the three katakana letters and \<^verbatim>\<open>.json\<close>: within the 200
  characters, but not within \<^verbatim>\<open>[A-Za-z0-9_.-]\<close>.
\<close>

theorem output_filename_katakana:
  "output_filename sample_alnum (U ''20210701'') [(U ''workspace_path'', PStr katakana_path)] =
     U ''ws_20210701_'' @ [12486, 12473, 12488] @ U ''.json'' \<and>
   \<not> list_all allowed_char
       (output_filename sample_alnum (U ''20210701'') [(U ''workspace_path'', PStr katakana_path)])"
  by (simp add: output_filename_def path_id_def safe_part_def is_word_def sample_alnum_def
      katakana_path_def allowed_char_def dict_get_def U_def Let_def)

section \<open>Properties of the safe database accessor\<close>

text \<open>
  C8. For a file that does not exist, is not readable, or has size zero,
  \<^verbatim>\<open>get_db_connection\<close> returns \<^verbatim>\<open>None\<close> without raising and \<^verbatim>\<open>safe_db_connection\<close> hands the
  "unavailable" signal (no connection) to its caller; and whatever the environment,
  \<^verbatim>\<open>safe_db_connection\<close> returns and lets no exception pass.
\<close>

theorem safe_db_connection_unavailable:
  "(\<not> file_exists env \<or> \<not> file_readable env \<or> file_size env = Inr 0 \<longrightarrow>
      get_db_connection env = Inr None \<and> safe_db_connection env = Inr None) \<and>
   (\<exists>conn. safe_db_connection env = Inr conn)"
  by (auto simp: safe_db_connection_def get_db_connection_def split: sum.splits)

theorem safe_db_connection_unavailable_witness:
  "\<not> file_exists missing_file \<and> safe_db_connection missing_file = Inr None \<and>
   \<not> file_readable unreadable_file \<and> safe_db_connection unreadable_file = Inr None \<and>
   file_size empty_file = Inr 0 \<and> safe_db_connection empty_file = Inr None \<and>
   safe_db_connection good_file = Inr (Some 1)"
proof -
  have 1: "\<not> file_exists missing_file" by (simp add: missing_file_def)
  have 2: "\<not> file_readable unreadable_file" by (simp add: unreadable_file_def)
  have 3: "file_size empty_file = Inr 0" by (simp add: empty_file_def)
  have 4: "safe_db_connection good_file = Inr (Some 1)"
    by (simp add: safe_db_connection_def get_db_connection_def open_connection_def good_file_def)
  from safe_db_connection_unavailable [of missing_file]
       safe_db_connection_unavailable [of unreadable_file]
       safe_db_connection_unavailable [of empty_file] 1 2 3 4
  show ?thesis by simp
qed

end
